theory Spec2Isabelle
  imports Main
begin

section \<open>Data model\<close>

text \<open>
  The program is a four-stage pipeline over pandas DataFrames
  (\<^verbatim>\<open>data_transformer.py\<close>). A cell of a DataFrame is a missing value
  (\<open>NaN\<close> as read from an empty CSV field, \<open>NaT\<close> as produced by date coercion),
  a text value, or a timestamp. Timestamps are nanoseconds since the epoch, the
  integer pandas stores.
\<close>

datatype cell = NaN | NaT | Str string | Timestamp int

text \<open>\<^verbatim>\<open>pd.isna\<close>: both missing values are null.\<close>

fun isna :: "cell \<Rightarrow> bool" where
  "isna NaN = True"
| "isna NaT = True"
| "isna (Str s) = False"
| "isna (Timestamp t) = False"

text \<open>
  A DataFrame is column-major: the length of its index and its labelled columns in
  order. The labels of a Dataset are unique and every column is as long as the
  index (\<open>wf_df\<close>).
\<close>

type_synonym column = "string \<times> cell list"

record dataframe =
  nrows :: nat
  cols :: "column list"

definition columns_of :: "dataframe \<Rightarrow> string list" where
  "columns_of df = map fst (cols df)"

definition column :: "dataframe \<Rightarrow> string \<Rightarrow> cell list option" where
  "column df name = map_of (cols df) name"

definition wf_df :: "dataframe \<Rightarrow> bool" where
  "wf_df df \<longleftrightarrow>
     distinct (columns_of df) \<and> list_all (\<lambda>c. length (snd c) = nrows df) (cols df)"

text \<open>
  The rows of a DataFrame, each as the list of its labelled cells: row \<open>i\<close> holds
  cell \<open>i\<close> of every column.
\<close>

definition row_at :: "dataframe \<Rightarrow> nat \<Rightarrow> (string \<times> cell) list" where
  "row_at df i = map (\<lambda>(name, vs). (name, vs ! i)) (cols df)"

definition rows_of :: "dataframe \<Rightarrow> (string \<times> cell) list list" where
  "rows_of df = map (row_at df) [0..<nrows df]"

text \<open>
  The exceptions of the run, all of them subclasses of Python's \<^verbatim>\<open>Exception\<close>.
  \<open>KeyError\<close> carries the labels that were not found; \<open>OtherException\<close> stands for
  whatever else the CSV reader or the spreadsheet writer raises (parser errors,
  permissions, a full disk).
\<close>

datatype exn =
    FileNotFoundError string
  | UnicodeDecodeError
  | ValueError string
  | KeyError "string list"
  | OtherException string

section \<open>Configuration\<close>

definition COLUMN_MAPPING :: "(string \<times> string) list" where
  "COLUMN_MAPPING =
     [(''Issue Key'', ''Ticket ID''),
      (''Issue Type'', ''Ticket Type''),
      (''Updated'', ''Open Date''),
      (''Status'', ''Status''),
      (''Resolved'', ''Closed Date'')]"

definition CONSTANTS :: "(string \<times> string) list" where
  "CONSTANTS =
     [(''Priority'', ''NONE''),
      (''Application'', ''HMOF''),
      (''Assignment Group'', ''HMH Support Group'')]"

definition FINAL_COLUMN_ORDER :: "string list" where
  "FINAL_COLUMN_ORDER =
     [''Ticket ID'', ''Ticket Type'', ''Open Date'', ''Priority'',
      ''Status'', ''Application'', ''Assignment Group'', ''Closed Date'']"

section \<open>The DataFrame operations the pipeline calls\<close>

text \<open>
  \<^verbatim>\<open>df.rename(columns=m)\<close>: every label that is a key of the dict is replaced by
  its value, every other label stays; the cells are untouched.
\<close>

definition rename_columns :: "(string \<rightharpoonup> string) \<Rightarrow> dataframe \<Rightarrow> dataframe" where
  "rename_columns m df =
     df\<lparr>cols := map (\<lambda>(name, vs). (case m name of Some name' \<Rightarrow> name' | None \<Rightarrow> name, vs))
                  (cols df)\<rparr>"

text \<open>
  \<^verbatim>\<open>df[col] = val\<close> with a scalar: an existing column of that label is overwritten
  in place on every row, otherwise the column is appended as the last one.
\<close>

definition set_scalar :: "string \<Rightarrow> cell \<Rightarrow> dataframe \<Rightarrow> dataframe" where
  "set_scalar col val df =
     (if col \<in> set (columns_of df)
      then df\<lparr>cols := map (\<lambda>(name, vs). (name, if name = col then replicate (nrows df) val else vs))
                        (cols df)\<rparr>
      else df\<lparr>cols := cols df @ [(col, replicate (nrows df) val)]\<rparr>)"

text \<open>
  \<^verbatim>\<open>df[col] = series\<close> for a label that is present (the source guards it with
  \<^verbatim>\<open>col in df.columns\<close> or reads the same label first).
\<close>

definition set_series :: "string \<Rightarrow> cell list \<Rightarrow> dataframe \<Rightarrow> dataframe" where
  "set_series col vs' df =
     df\<lparr>cols := map (\<lambda>(name, vs). (name, if name = col then vs' else vs)) (cols df)\<rparr>"

section \<open>Stage 2: the Mapper\<close>

text \<open>
  \<^verbatim>\<open>
  def apply_transformations(df):
      df_transformed = df.rename(columns=COLUMN_MAPPING)
      for col, val in CONSTANTS.items():
          df_transformed[col] = val
      return df_transformed
  \<close>
  The loop over the dict's items is a left fold over its entries in insertion order.
  The function has no raise site, so it returns a DataFrame.
\<close>

definition inject_constants :: "(string \<times> string) list \<Rightarrow> dataframe \<Rightarrow> dataframe" where
  "inject_constants entries df = foldl (\<lambda>d (col, val). set_scalar col (Str val) d) df entries"

definition apply_transformations :: "dataframe \<Rightarrow> dataframe" where
  "apply_transformations df = inject_constants CONSTANTS (rename_columns (map_of COLUMN_MAPPING) df)"

section \<open>Python strings\<close>

text \<open>
  A \<open>char\<close> is a code point below 256. \<^verbatim>\<open>str.lower\<close> maps \<open>A\<close>..\<open>Z\<close> and the
  upper-case letters of the Latin-1 block (\<open>0xC0\<close>..\<open>0xDE\<close> without the
  multiplication sign \<open>0xD7\<close>) 32 code points up; \<^verbatim>\<open>str.strip\<close> removes the
  leading and trailing characters for which \<^verbatim>\<open>str.isspace\<close> holds.
\<close>

definition lower_char :: "char \<Rightarrow> char" where
  "lower_char c =
     (let n = (of_char c :: nat)
      in if (65 \<le> n \<and> n \<le> 90) \<or> (192 \<le> n \<and> n \<le> 222 \<and> n \<noteq> 215)
         then char_of (n + 32) else c)"

definition py_lower :: "string \<Rightarrow> string" where
  "py_lower s = map lower_char s"

definition is_space :: "char \<Rightarrow> bool" where
  "is_space c =
     (let n = (of_char c :: nat)
      in (9 \<le> n \<and> n \<le> 13) \<or> (28 \<le> n \<and> n \<le> 32) \<or> n = 133 \<or> n = 160)"

definition py_strip :: "string \<Rightarrow> string" where
  "py_strip s = rev (dropWhile is_space (rev (dropWhile is_space s)))"

text \<open>
  \<^verbatim>\<open>repr\<close> of a list of strings, as the f-string of the schema error prints it.
  The strings printed there are keys of \<open>COLUMN_MAPPING\<close>, which hold no quote and
  no escape, so each is its text between single quotes.
\<close>

definition py_repr_str :: "string \<Rightarrow> string" where
  "py_repr_str s = [CHR 0x27] @ s @ [CHR 0x27]"

fun py_join :: "string \<Rightarrow> string list \<Rightarrow> string" where
  "py_join sep [] = []"
| "py_join sep [x] = x"
| "py_join sep (x # y # ys) = x @ sep @ py_join sep (y # ys)"

definition py_repr_list :: "string list \<Rightarrow> string" where
  "py_repr_list xs = ''['' @ py_join '', '' (map py_repr_str xs) @ '']''"

section \<open>The world outside the program\<close>

text \<open>
  What the run reads from and writes to its environment:
  \<^item> \<open>file_exists\<close> is \<^verbatim>\<open>os.path.exists\<close>;
  \<^item> \<open>csv_header p enc\<close> is the outcome of \<^verbatim>\<open>pd.read_csv(p, nrows=0, encoding=enc)\<close>:
    an exception or the labels of the header;
  \<^item> \<open>csv_table p enc\<close> is the outcome of parsing the whole file \<open>p\<close> under \<open>enc\<close>;
  \<^item> \<open>parse_date\<close> is the date parser behind \<^verbatim>\<open>pd.to_datetime\<close>: the timestamp of
    a text, if it has one;
  \<^item> \<open>excel_fault p df\<close> is the exception \<^verbatim>\<open>df.to_excel(p, index=False)\<close> raises, if
    it raises;
  \<^item> \<open>sheets\<close> holds the spreadsheets written so far: header and rows, no index
    column. What a write that raised leaves at its path is not modelled.
\<close>

datatype encoding = UTF8 | Latin1

record world =
  file_exists :: "string \<Rightarrow> bool"
  csv_header :: "string \<Rightarrow> encoding \<Rightarrow> exn + string list"
  csv_table :: "string \<Rightarrow> encoding \<Rightarrow> exn + dataframe"
  parse_date :: "string \<Rightarrow> int option"
  excel_fault :: "string \<Rightarrow> dataframe \<Rightarrow> exn option"
  sheets :: "string \<Rightarrow> dataframe option"

text \<open>
  \<^verbatim>\<open>try: body except UnicodeDecodeError: fallback\<close> and
  \<^verbatim>\<open>try: body except Exception as e: handler(e)\<close>.
\<close>

definition except_UnicodeDecodeError :: "exn + 'a \<Rightarrow> exn + 'a \<Rightarrow> exn + 'a" where
  "except_UnicodeDecodeError body fallback =
     (if body = Inl UnicodeDecodeError then fallback else body)"

definition except_Exception :: "exn + 'a \<Rightarrow> (exn \<Rightarrow> exn + 'a) \<Rightarrow> exn + 'a" where
  "except_Exception body handler = (case body of Inl e \<Rightarrow> handler e | Inr v \<Rightarrow> Inr v)"

text \<open>
  \<^verbatim>\<open>pd.read_csv(p, usecols=names, encoding=enc)\<close>: the parse of the file, restricted
  to the columns whose label is among \<open>names\<close>, in the order of the file. A name
  that is no label of the file is a \<^verbatim>\<open>ValueError\<close>.
\<close>

definition read_csv_usecols :: "world \<Rightarrow> string \<Rightarrow> string list \<Rightarrow> encoding \<Rightarrow> exn + dataframe" where
  "read_csv_usecols w p usecols enc =
     (case csv_table w p enc of
        Inl e \<Rightarrow> Inl e
      | Inr df \<Rightarrow>
          if list_all (\<lambda>u. u \<in> set (columns_of df)) usecols
          then Inr (df\<lparr>cols := filter (\<lambda>c. fst c \<in> set usecols) (cols df)\<rparr>)
          else Inl (ValueError ''Usecols do not match columns''))"

section \<open>Stage 1: the Source Loader\<close>

text \<open>
  \<^verbatim>\<open>actual_col_map = {col.lower().strip(): col for col in actual_file_columns}\<close>:
  a later label with the same key replaces an earlier one.
\<close>

definition lower_strip :: "string \<Rightarrow> string" where
  "lower_strip s = py_strip (py_lower s)"

definition actual_col_map :: "string list \<Rightarrow> (string \<rightharpoonup> string)" where
  "actual_col_map actual_file_columns =
     foldl (\<lambda>m col. m(lower_strip col \<mapsto> col)) Map.empty actual_file_columns"

text \<open>
  The loop over \<^verbatim>\<open>COLUMN_MAPPING.keys()\<close> with its three accumulators
  \<^verbatim>\<open>usecols_actual\<close>, \<^verbatim>\<open>normalization_map\<close> and \<^verbatim>\<open>missing_cols\<close>.
\<close>

fun resolve_columns ::
  "(string \<rightharpoonup> string) \<Rightarrow> string list \<Rightarrow>
   string list \<times> (string \<rightharpoonup> string) \<times> string list \<Rightarrow>
   string list \<times> (string \<rightharpoonup> string) \<times> string list" where
  "resolve_columns acm [] acc = acc"
| "resolve_columns acm (required_col # rest) (usecols_actual, normalization_map, missing_cols) =
     (case acm (lower_strip required_col) of
        Some actual_name \<Rightarrow>
          resolve_columns acm rest
            (usecols_actual @ [actual_name],
             normalization_map(actual_name \<mapsto> required_col),
             missing_cols)
      | None \<Rightarrow>
          resolve_columns acm rest
            (usecols_actual, normalization_map, missing_cols @ [required_col]))"

definition read_header :: "world \<Rightarrow> string \<Rightarrow> exn + string list" where
  "read_header w p =
     except_UnicodeDecodeError (csv_header w p UTF8) (csv_header w p Latin1)"

definition read_columns :: "world \<Rightarrow> string \<Rightarrow> string list \<Rightarrow> exn + dataframe" where
  "read_columns w p usecols =
     except_UnicodeDecodeError (read_csv_usecols w p usecols UTF8)
       (read_csv_usecols w p usecols Latin1)"

definition load_source_data :: "world \<Rightarrow> string \<Rightarrow> exn + dataframe" where
  "load_source_data w file_path =
     (if \<not> file_exists w file_path
      then Inl (FileNotFoundError (''Input file does not exist: '' @ file_path))
      else except_Exception
        (case read_header w file_path of
           Inl e \<Rightarrow> Inl e
         | Inr actual_file_columns \<Rightarrow>
             (case resolve_columns (actual_col_map actual_file_columns)
                     (map fst COLUMN_MAPPING) ([], Map.empty, []) of
                (usecols_actual, normalization_map, missing_cols) \<Rightarrow>
                  if missing_cols \<noteq> []
                  then Inl (ValueError (''Missing required columns: '' @ py_repr_list missing_cols))
                  else (case read_columns w file_path usecols_actual of
                          Inl e \<Rightarrow> Inl e
                        | Inr df \<Rightarrow> Inr (rename_columns normalization_map df))))
        (\<lambda>e. Inl e))"

section \<open>Stage 3: the Validator/Cleaner\<close>

text \<open>
  \<^verbatim>\<open>df.dropna(subset=[key])\<close>: a \<^verbatim>\<open>KeyError\<close> when the label is absent, otherwise
  the rows whose cell under \<open>key\<close> is not null, in their order.
\<close>

definition keep :: "bool list \<Rightarrow> 'a list \<Rightarrow> 'a list" where
  "keep notna xs = map snd (filter fst (zip notna xs))"

definition dropna_subset :: "string \<Rightarrow> dataframe \<Rightarrow> exn + dataframe" where
  "dropna_subset key df =
     (case column df key of
        None \<Rightarrow> Inl (KeyError [key])
      | Some vs \<Rightarrow>
          (let notna = map (\<lambda>c. \<not> isna c) vs
           in Inr \<lparr>nrows = length (filter id notna),
                   cols = map (\<lambda>(name, xs). (name, keep notna xs)) (cols df)\<rparr>))"

text \<open>
  \<^verbatim>\<open>pd.to_datetime(series, errors='coerce')\<close>, cell by cell: a text the parser
  gives a timestamp becomes that timestamp, any other text and every missing value
  becomes \<open>NaT\<close>.
\<close>

fun coerce_cell :: "(string \<Rightarrow> int option) \<Rightarrow> cell \<Rightarrow> cell" where
  "coerce_cell parse NaN = NaT"
| "coerce_cell parse NaT = NaT"
| "coerce_cell parse (Str s) = (case parse s of Some t \<Rightarrow> Timestamp t | None \<Rightarrow> NaT)"
| "coerce_cell parse (Timestamp t) = Timestamp t"

definition to_datetime_coerce :: "(string \<Rightarrow> int option) \<Rightarrow> cell list \<Rightarrow> cell list" where
  "to_datetime_coerce parse vs = map (coerce_cell parse) vs"

text \<open>The loop over \<^verbatim>\<open>date_cols\<close>, guarded by \<^verbatim>\<open>col in df.columns\<close>.\<close>

definition coerce_dates :: "(string \<Rightarrow> int option) \<Rightarrow> string list \<Rightarrow> dataframe \<Rightarrow> dataframe" where
  "coerce_dates parse date_cols df =
     foldl (\<lambda>d col. case column d col of
                       Some vs \<Rightarrow> set_series col (to_datetime_coerce parse vs) d
                     | None \<Rightarrow> d)
       df date_cols"

text \<open>\<^verbatim>\<open>df[col]\<close> and \<^verbatim>\<open>series.fillna(v)\<close>.\<close>

definition getitem :: "dataframe \<Rightarrow> string \<Rightarrow> exn + cell list" where
  "getitem df col = (case column df col of None \<Rightarrow> Inl (KeyError [col]) | Some vs \<Rightarrow> Inr vs)"

definition fillna :: "cell \<Rightarrow> cell list \<Rightarrow> cell list" where
  "fillna v vs = map (\<lambda>c. if isna c then v else c) vs"

definition validate_and_clean :: "world \<Rightarrow> dataframe \<Rightarrow> exn + dataframe" where
  "validate_and_clean w df =
     (case dropna_subset ''Ticket ID'' df of
        Inl e \<Rightarrow> Inl e
      | Inr df1 \<Rightarrow>
          (let df2 = coerce_dates (parse_date w) [''Open Date'', ''Closed Date''] df1
           in case getitem df2 ''Closed Date'' of
                Inl e \<Rightarrow> Inl e
              | Inr closed \<Rightarrow> Inr (set_series ''Closed Date'' (fillna (Str []) closed) df2)))"

section \<open>Stage 4: the Writer\<close>

text \<open>
  \<^verbatim>\<open>df[names]\<close>: a \<^verbatim>\<open>KeyError\<close> naming the labels that are absent, otherwise the
  columns of those labels in the order of \<open>names\<close>.
\<close>

definition getitem_list :: "dataframe \<Rightarrow> string list \<Rightarrow> exn + dataframe" where
  "getitem_list df names =
     (let missing = filter (\<lambda>n. n \<notin> set (columns_of df)) names
      in if missing \<noteq> [] then Inl (KeyError missing)
         else Inr (df\<lparr>cols := concat (map (\<lambda>n. filter (\<lambda>c. fst c = n) (cols df)) names)\<rparr>))"

definition to_excel :: "world \<Rightarrow> dataframe \<Rightarrow> string \<Rightarrow> (exn + unit) \<times> world" where
  "to_excel w df path =
     (case excel_fault w path df of
        Some e \<Rightarrow> (Inl e, w)
      | None \<Rightarrow> (Inr (), w\<lparr>sheets := (sheets w)(path \<mapsto> df)\<rparr>))"

text \<open>
  \<^verbatim>\<open>
  def save_target_file(df, output_path):
      try:
          df_final = df[FINAL_COLUMN_ORDER]
          df_final.to_excel(output_path, index=False)
          return True
      except Exception as e:
          logger.error(...)
          return False
  \<close>
  The result is an exception or a boolean, with the world after the call.
\<close>

definition save_target_file :: "world \<Rightarrow> dataframe \<Rightarrow> string \<Rightarrow> (exn + bool) \<times> world" where
  "save_target_file w df output_path =
     (case getitem_list df FINAL_COLUMN_ORDER of
        Inl e \<Rightarrow> (Inr False, w)
      | Inr df_final \<Rightarrow>
          (case to_excel w df_final output_path of
             (Inl e, w') \<Rightarrow> (Inr False, w')
           | (Inr u, w') \<Rightarrow> (Inr True, w')))"

section \<open>The orchestrator\<close>

text \<open>
  \<^verbatim>\<open>
  def run_transformation_pipeline(input_path, output_path):
      try:
          df = load_source_data(input_path)
          df = apply_transformations(df)
          df = validate_and_clean(df)
          success = save_target_file(df, output_path)
          return success
      except Exception as e:
          logger.error(...)
          return False
  \<close>
\<close>

definition run_transformation_pipeline ::
  "world \<Rightarrow> string \<Rightarrow> string \<Rightarrow> (exn + bool) \<times> world" where
  "run_transformation_pipeline w input_path output_path =
     (case load_source_data w input_path of
        Inl e \<Rightarrow> (Inr False, w)
      | Inr df \<Rightarrow>
          (case validate_and_clean w (apply_transformations df) of
             Inl e \<Rightarrow> (Inr False, w)
           | Inr df' \<Rightarrow>
               (case save_target_file w df' output_path of
                  (Inl e, w') \<Rightarrow> (Inr False, w')
                | (Inr success, w') \<Rightarrow> (Inr success, w'))))"

section \<open>The logger calls\<close>

text \<open>
  The definitions above leave the logger out: they are what the functions compute
  when no logger call raises. A logger call can raise. The file handler is created
  with \<^verbatim>\<open>delay=True\<close>, so it opens \<^verbatim>\<open>applens_conversion.log\<close> when it
  handles a record, and the exception of a failed open leaves \<^verbatim>\<open>logger.info\<close>,
  \<^verbatim>\<open>logger.warning\<close>, \<^verbatim>\<open>logger.error\<close> and \<^verbatim>\<open>logger.critical\<close>. A logger is
  modelled by the exception each call raises, if it raises, the call being named by
  its line in \<^verbatim>\<open>data_transformer.py\<close>. The functions below are the source's
  functions with every logger call in its place.
\<close>

type_synonym logger = "nat \<Rightarrow> exn option"

definition log_then :: "logger \<Rightarrow> nat \<Rightarrow> exn + 'a \<Rightarrow> exn + 'a" where
  "log_then lg line rest = (case lg line of Some e \<Rightarrow> Inl e | None \<Rightarrow> rest)"









section \<open>Example inputs\<close>

text \<open>
  The parse of a one-row CSV file whose header spells the five required columns in
  other letter cases and with surrounding blanks, next to a column the pipeline
  does not ask for. The empty \<open>Resolved\<close> field is read as \<open>NaN\<close>.
\<close>

definition example_table :: dataframe where
  "example_table =
     \<lparr>nrows = 1,
      cols = [(''issue key'', [Str ''ABC-1'']),
              (''ISSUE TYPE'', [Str ''Bug'']),
              (''Summary'', [Str ''Crash on start'']),
              (''updated'', [Str ''2024-01-01'']),
              ('' Status '', [Str ''Open'']),
              (''RESOLVED'', [NaN])]\<rparr>"

text \<open>
  A world in which that file is \<open>in.csv\<close>, the date parser knows the one date
  \<open>2024-01-01\<close> (midnight, in nanoseconds since the epoch) and the spreadsheet
  writer does not fail.
\<close>

definition example_world :: world where
  "example_world =
     \<lparr>file_exists = (\<lambda>p. p = ''in.csv''),
      csv_header = (\<lambda>p enc. Inr (columns_of example_table)),
      csv_table = (\<lambda>p enc. Inr example_table),
      parse_date = (\<lambda>s. if s = ''2024-01-01'' then Some 1704067200000000000 else None),
      excel_fault = (\<lambda>p df. None),
      sheets = Map.empty\<rparr>"

text \<open>The Dataset the Loader produces from \<open>example_table\<close>.\<close>

definition example_loaded :: dataframe where
  "example_loaded =
     \<lparr>nrows = 1,
      cols = [(''Issue Key'', [Str ''ABC-1'']),
              (''Issue Type'', [Str ''Bug'']),
              (''Updated'', [Str ''2024-01-01'']),
              (''Status'', [Str ''Open'']),
              (''Resolved'', [NaN])]\<rparr>"

text \<open>
  A mapped Dataset of three rows: the second has no Ticket ID, the third an Open
  Date that is no date, the first a Closed Date that is no date. It carries a column
  \<open>Priority\<close> of its own and a column \<open>Notes\<close> outside the final schema.
\<close>

definition example_mapped :: dataframe where
  "example_mapped =
     \<lparr>nrows = 3,
      cols = [(''Ticket ID'', [Str ''A-1'', NaN, Str ''A-3'']),
              (''Ticket Type'', [Str ''Bug'', Str ''Task'', Str ''Bug'']),
              (''Open Date'', [Str ''2024-01-01'', Str ''2024-01-01'', Str ''yesterday'']),
              (''Status'', [Str ''Open'', Str ''Open'', Str ''Done'']),
              (''Closed Date'', [Str ''soon'', NaN, Str ''2024-01-01'']),
              (''Priority'', [Str ''High'', Str ''Low'', Str ''Low'']),
              (''Notes'', [NaN, NaN, Str ''n''])]\<rparr>"







section \<open>Properties of the operations\<close>

lemma nrows_rename_columns: "nrows (rename_columns m df) = nrows df"
  by (simp add: rename_columns_def)

lemma columns_of_rename_columns:
  "columns_of (rename_columns m df) =
     map (\<lambda>name. case m name of Some name' \<Rightarrow> name' | None \<Rightarrow> name) (columns_of df)"
  by (simp add: rename_columns_def columns_of_def case_prod_unfold comp_def)

lemma map_of_relabel:
  assumes "inj_on f (insert k (fst ` set xs))"
  shows "map_of (map (\<lambda>(name, vs). (f name, vs)) xs) (f k) = map_of xs k"
  using assms
proof (induction xs)
  case Nil
  then show ?case by simp
next
  case (Cons x xs)
  obtain n vs where x: "x = (n, vs)" by (cases x)
  have inj: "inj_on f (insert k (fst ` set xs))"
    using Cons.prems by (auto simp: inj_on_def)
  have "f k = f n \<longleftrightarrow> k = n"
    using Cons.prems by (auto simp: inj_on_def x)
  then show ?case
    using Cons.IH [OF inj] by (auto simp: x)
qed

lemma column_rename_columns:
  assumes "inj_on (\<lambda>name. case m name of Some name' \<Rightarrow> name' | None \<Rightarrow> name)
             (insert k (set (columns_of df)))"
  shows "column (rename_columns m df) (case m k of Some name' \<Rightarrow> name' | None \<Rightarrow> k) = column df k"
  using map_of_relabel [of "\<lambda>name. case m name of Some name' \<Rightarrow> name' | None \<Rightarrow> name" k "cols df"] assms
  by (simp add: column_def rename_columns_def columns_of_def)

lemma column_eq_None_iff: "column df name = None \<longleftrightarrow> name \<notin> set (columns_of df)"
  by (simp add: column_def columns_of_def map_of_eq_None_iff)

lemma nrows_set_scalar: "nrows (set_scalar col val df) = nrows df"
  by (simp add: set_scalar_def)

lemma columns_of_set_scalar:
  "columns_of (set_scalar col val df) =
     (if col \<in> set (columns_of df) then columns_of df else columns_of df @ [col])"
  by (simp add: set_scalar_def columns_of_def case_prod_unfold comp_def)

lemma map_of_map_values:
  "map_of (map (\<lambda>(name, vs). (name, g name vs)) xs) k = map_option (g k) (map_of xs k)"
  by (induction xs) auto

lemma column_set_scalar:
  "column (set_scalar col val df) name =
     (if name = col then Some (replicate (nrows df) val) else column df name)"
proof (cases "col \<in> set (columns_of df)")
  case True
  then obtain vs where "map_of (cols df) col = Some vs"
    using column_eq_None_iff [of df col] by (auto simp: column_def)
  then show ?thesis
    using True by (cases "map_of (cols df) name") (auto simp: set_scalar_def column_def map_of_map_values)
next
  case False
  then have "map_of (cols df) col = None"
    using column_eq_None_iff [of df col] by (simp add: column_def)
  then show ?thesis
    using False by (auto simp: set_scalar_def column_def map_add_def split: option.splits)
qed

lemma nrows_set_series: "nrows (set_series col vs' df) = nrows df"
  by (simp add: set_series_def)

lemma columns_of_set_series: "columns_of (set_series col vs' df) = columns_of df"
  by (simp add: set_series_def columns_of_def case_prod_unfold comp_def)

lemma column_set_series:
  "column (set_series col vs' df) name =
     (if name = col then map_option (\<lambda>_. vs') (column df name) else column df name)"
  by (auto simp: set_series_def column_def map_of_map_values option.map_ident)

lemma nrows_inject_constants: "nrows (inject_constants entries df) = nrows df"
  unfolding inject_constants_def
  by (induction entries arbitrary: df) (auto simp: nrows_set_scalar)

lemma column_inject_constants:
  "column (inject_constants entries df) name =
     (case map_of (rev entries) name of
        Some val \<Rightarrow> Some (replicate (nrows df) (Str val))
      | None \<Rightarrow> column df name)"
  unfolding inject_constants_def
proof (induction entries arbitrary: df)
  case Nil
  then show ?case by simp
next
  case (Cons c entries)
  obtain col val where c: "c = (col, val)" by (cases c)
  show ?case
    by (simp add: c Cons.IH nrows_set_scalar column_set_scalar map_add_def split: option.splits)
qed

lemma set_columns_of_inject_constants:
  "set (columns_of (inject_constants entries df)) = set (columns_of df) \<union> fst ` set entries"
  unfolding inject_constants_def
  by (induction entries arbitrary: df) (auto simp: columns_of_set_scalar split: if_splits)

lemma distinct_columns_of_set_scalar:
  "distinct (columns_of df) \<Longrightarrow> distinct (columns_of (set_scalar col val df))"
  by (simp add: columns_of_set_scalar)

lemma distinct_columns_of_inject_constants:
  "distinct (columns_of df) \<Longrightarrow> distinct (columns_of (inject_constants entries df))"
  unfolding inject_constants_def
  by (induction entries arbitrary: df) (auto simp: distinct_columns_of_set_scalar)

subsection \<open>dropna\<close>

lemma length_keep: "length (keep notna xs) = length (filter id (take (length xs) notna))"
  unfolding keep_def
proof (induction notna arbitrary: xs)
  case Nil
  then show ?case by simp
next
  case (Cons b notna)
  then show ?case by (cases xs) auto
qed

lemma keep_all: "list_all id notna \<Longrightarrow> length notna = length xs \<Longrightarrow> keep notna xs = xs"
  unfolding keep_def
proof (induction notna arbitrary: xs)
  case Nil
  then show ?case by simp
next
  case (Cons b notna)
  then show ?case by (cases xs) auto
qed

lemma dropna_subset_absent:
  "key \<notin> set (columns_of df) \<Longrightarrow> dropna_subset key df = Inl (KeyError [key])"
  using column_eq_None_iff [of df key] by (simp add: dropna_subset_def)

lemma dropna_subset_present:
  assumes "column df key = Some ids"
  shows "dropna_subset key df =
           Inr \<lparr>nrows = length (filter (\<lambda>c. \<not> isna c) ids),
                cols = map (\<lambda>(name, xs). (name, keep (map (\<lambda>c. \<not> isna c) ids) xs)) (cols df)\<rparr>"
  using assms by (simp add: dropna_subset_def Let_def filter_map comp_def)

lemma columns_of_dropped:
  "columns_of \<lparr>nrows = n, cols = map (\<lambda>(name, xs). (name, g name xs)) (cols df)\<rparr> = columns_of df"
  by (simp add: columns_of_def case_prod_unfold comp_def)

lemma column_dropped:
  "column \<lparr>nrows = n, cols = map (\<lambda>(name, xs). (name, g xs)) (cols df)\<rparr> name =
     map_option g (column df name)"
  using map_of_map_values [of "\<lambda>_. g" "cols df" name] by (simp add: column_def)

subsection \<open>Date coercion\<close>

lemma nrows_coerce_dates: "nrows (coerce_dates parse date_cols df) = nrows df"
  unfolding coerce_dates_def
  by (induction date_cols arbitrary: df) (auto simp: nrows_set_series split: option.splits)

lemma columns_of_coerce_dates: "columns_of (coerce_dates parse date_cols df) = columns_of df"
  unfolding coerce_dates_def
  by (induction date_cols arbitrary: df) (auto simp: columns_of_set_series split: option.splits)

lemma column_coerce_dates_two:
  assumes "a \<noteq> b"
  shows "column (coerce_dates parse [a, b] df) name =
           (if name = a \<or> name = b then map_option (to_datetime_coerce parse) (column df name)
            else column df name)"
  using assms
  by (cases "column df a"; cases "column df b")
     (auto simp: coerce_dates_def column_set_series)

subsection \<open>Projection\<close>

lemma filter_label_distinct:
  assumes "distinct (map fst xs)" and "map_of xs n = Some vs"
  shows "filter (\<lambda>c. fst c = n) xs = [(n, vs)]"
  using assms
proof (induction xs)
  case Nil
  then show ?case by simp
next
  case (Cons x xs)
  obtain m ws where x: "x = (m, ws)" by (cases x)
  show ?case
  proof (cases "m = n")
    case True
    then have "n \<notin> fst ` set xs" using Cons.prems(1) by (simp add: x)
    then have "filter (\<lambda>c. fst c = n) xs = []"
      by (auto simp: filter_empty_conv)
    then show ?thesis using True Cons.prems(2) by (simp add: x)
  next
    case False
    then show ?thesis using Cons by (simp add: x)
  qed
qed

lemma getitem_list_missing:
  assumes "\<not> set names \<subseteq> set (columns_of df)"
  shows "getitem_list df names = Inl (KeyError (filter (\<lambda>n. n \<notin> set (columns_of df)) names))"
    and "filter (\<lambda>n. n \<notin> set (columns_of df)) names \<noteq> []"
  using assms by (auto simp: getitem_list_def Let_def filter_empty_conv)

lemma getitem_list_present:
  assumes "set names \<subseteq> set (columns_of df)" and "distinct (columns_of df)"
  shows "getitem_list df names =
           Inr (df\<lparr>cols := map (\<lambda>n. (n, the (column df n))) names\<rparr>)"
proof -
  have none: "filter (\<lambda>n. n \<notin> set (columns_of df)) names = []"
    using assms(1) by (auto simp: filter_empty_conv)
  have each: "filter (\<lambda>c. fst c = n) (cols df) = [(n, the (column df n))]" if "n \<in> set names" for n
  proof -
    from that assms(1) obtain vs where "map_of (cols df) n = Some vs"
      using column_eq_None_iff [of df n] by (auto simp: column_def)
    then show ?thesis
      using filter_label_distinct [of "cols df" n vs] assms(2)
      by (simp add: columns_of_def column_def)
  qed
  have "concat (map (\<lambda>n. filter (\<lambda>c. fst c = n) (cols df)) names) =
        concat (map (\<lambda>n. [(n, the (column df n))]) names)"
    using each by (simp cong: map_cong)
  also have "\<dots> = map (\<lambda>n. (n, the (column df n))) names"
    by (induction names) auto
  finally show ?thesis
    by (simp add: getitem_list_def Let_def none)
qed

subsection \<open>The Validator/Cleaner\<close>

lemma validate_and_clean_absent_key:
  "''Ticket ID'' \<notin> set (columns_of df) \<Longrightarrow>
     validate_and_clean w df = Inl (KeyError [''Ticket ID''])"
  by (simp add: validate_and_clean_def dropna_subset_absent)

lemma validate_and_clean_absent_closed:
  assumes "column df ''Ticket ID'' = Some ids" and "''Closed Date'' \<notin> set (columns_of df)"
  shows "validate_and_clean w df = Inl (KeyError [''Closed Date''])"
proof -
  let ?df1 = "\<lparr>nrows = length (filter (\<lambda>c. \<not> isna c) ids),
               cols = map (\<lambda>(name, xs). (name, keep (map (\<lambda>c. \<not> isna c) ids) xs)) (cols df)\<rparr>"
  have "columns_of (coerce_dates (parse_date w) [''Open Date'', ''Closed Date''] ?df1) = columns_of df"
    by (simp add: columns_of_coerce_dates columns_of_dropped)
  then have "column (coerce_dates (parse_date w) [''Open Date'', ''Closed Date''] ?df1) ''Closed Date'' = None"
    using assms(2) by (simp add: column_eq_None_iff)
  then show ?thesis
    by (simp add: validate_and_clean_def dropna_subset_present [OF assms(1)] Let_def getitem_def)
qed

lemma validate_and_clean_present:
  assumes "column df ''Ticket ID'' = Some ids" and "column df ''Closed Date'' = Some closed"
  shows "\<exists>df'. validate_and_clean w df = Inr df' \<and>
           nrows df' = length (filter (\<lambda>c. \<not> isna c) ids) \<and>
           columns_of df' = columns_of df \<and>
           (\<forall>name. column df' name =
              (if name = ''Closed Date''
               then Some (fillna (Str []) (to_datetime_coerce (parse_date w)
                            (keep (map (\<lambda>c. \<not> isna c) ids) closed)))
               else if name = ''Open Date''
               then map_option (\<lambda>vs. to_datetime_coerce (parse_date w)
                            (keep (map (\<lambda>c. \<not> isna c) ids) vs)) (column df name)
               else map_option (keep (map (\<lambda>c. \<not> isna c) ids)) (column df name)))"
proof -
  let ?notna = "map (\<lambda>c. \<not> isna c) ids"
  let ?df1 = "\<lparr>nrows = length (filter (\<lambda>c. \<not> isna c) ids),
               cols = map (\<lambda>(name, xs). (name, keep ?notna xs)) (cols df)\<rparr>"
  let ?df2 = "coerce_dates (parse_date w) [''Open Date'', ''Closed Date''] ?df1"
  let ?c = "fillna (Str []) (to_datetime_coerce (parse_date w) (keep ?notna closed))"
  have c1: "column ?df1 name = map_option (keep ?notna) (column df name)" for name
    by (rule column_dropped)
  have c2: "column ?df2 name =
              (if name = ''Open Date'' \<or> name = ''Closed Date''
               then map_option (to_datetime_coerce (parse_date w)) (column ?df1 name)
               else column ?df1 name)" for name
    by (rule column_coerce_dates_two) simp
  have closed2: "column ?df2 ''Closed Date'' =
                   Some (to_datetime_coerce (parse_date w) (keep ?notna closed))"
    by (simp add: c2 c1 assms(2))
  have res: "validate_and_clean w df = Inr (set_series ''Closed Date'' ?c ?df2)"
    by (simp add: validate_and_clean_def dropna_subset_present [OF assms(1)] Let_def
        getitem_def closed2)
  have n: "nrows (set_series ''Closed Date'' ?c ?df2) = length (filter (\<lambda>c. \<not> isna c) ids)"
    by (simp add: nrows_set_series nrows_coerce_dates)
  have l: "columns_of (set_series ''Closed Date'' ?c ?df2) = columns_of df"
    by (simp add: columns_of_set_series columns_of_coerce_dates columns_of_dropped)
  have v: "column (set_series ''Closed Date'' ?c ?df2) name =
              (if name = ''Closed Date'' then Some ?c
               else if name = ''Open Date''
               then map_option (\<lambda>vs. to_datetime_coerce (parse_date w) (keep ?notna vs)) (column df name)
               else map_option (keep ?notna) (column df name))" for name
    by (simp add: column_set_series closed2 c2 c1 assms(2) option.map_comp comp_def)
  show ?thesis
    using res n l v by blast
qed

subsection \<open>Rows\<close>

lemma upt_0_Suc: "[0..<Suc n] = 0 # map Suc [0..<n]"
  by (simp add: upt_conv_Cons map_Suc_upt del: upt_Suc)

lemma keep_nth:
  "length notna = length xs \<Longrightarrow>
     keep notna xs = map ((!) xs) (filter ((!) notna) [0..<length xs])"
proof (induction notna xs rule: list_induct2)
  case Nil
  then show ?case by (simp add: keep_def)
next
  case (Cons b notna x xs)
  have "keep (b # notna) (x # xs) = (if b then [x] else []) @ keep notna xs"
    by (simp add: keep_def)
  moreover have "map ((!) (x # xs)) (filter ((!) (b # notna)) [0..<length (x # xs)]) =
                 (if b then [x] else []) @ map ((!) xs) (filter ((!) notna) [0..<length xs])"
    by (simp add: upt_0_Suc filter_map comp_def del: upt_Suc)
  ultimately show ?case using Cons.IH by simp
qed

lemma rows_of_dropna:
  assumes wf: "wf_df df" and key: "column df key = Some ids"
  shows "rows_of \<lparr>nrows = length (filter (\<lambda>c. \<not> isna c) ids),
                  cols = map (\<lambda>(name, xs). (name, keep (map (\<lambda>c. \<not> isna c) ids) xs)) (cols df)\<rparr> =
         filter (\<lambda>r. case map_of r key of Some c \<Rightarrow> \<not> isna c | None \<Rightarrow> False) (rows_of df)"
proof -
  let ?notna = "map (\<lambda>c. \<not> isna c) ids"
  let ?idx = "filter (\<lambda>i. \<not> isna (ids ! i)) [0..<nrows df]"
  let ?P = "\<lambda>r. case map_of r key of Some c \<Rightarrow> \<not> isna c | None \<Rightarrow> False"
  have len: "length xs = nrows df" if "(name, xs) \<in> set (cols df)" for name xs
    using wf that by (auto simp: wf_df_def list_all_iff)
  have "(key, ids) \<in> set (cols df)"
    using key by (simp add: column_def map_of_SomeD)
  then have n: "length ids = nrows df" by (rule len)
  have idx: "filter ((!) ?notna) [0..<nrows df] = ?idx"
    by (rule filter_cong) (simp_all add: n)
  have cnt: "length (filter (\<lambda>c. \<not> isna c) ids) = length ?idx"
  proof -
    have "filter (\<lambda>c. \<not> isna c) ids = keep ?notna ids"
      by (simp add: keep_def filter_map comp_def zip_map1 zip_same_conv_map)
    also have "\<dots> = map ((!) ids) ?idx"
      using keep_nth [of ?notna ids] idx by (simp add: n)
    finally show ?thesis by simp
  qed
  have kept: "keep ?notna xs = map ((!) xs) ?idx" if "(name, xs) \<in> set (cols df)" for name xs
    using keep_nth [of ?notna xs] len [OF that] idx by (simp add: n)
  have cols': "map (\<lambda>(name, xs). (name, keep ?notna xs)) (cols df) =
               map (\<lambda>(name, xs). (name, map ((!) xs) ?idx)) (cols df)"
    by (rule map_cong) (auto simp: kept)
  have row': "row_at \<lparr>nrows = m, cols = map (\<lambda>(name, xs). (name, map ((!) xs) ?idx)) (cols df)\<rparr> j =
              row_at df (?idx ! j)" if "j < length ?idx" for j m
    using that by (simp add: row_at_def case_prod_unfold comp_def)
  have lhs: "rows_of \<lparr>nrows = length (filter (\<lambda>c. \<not> isna c) ids),
                      cols = map (\<lambda>(name, xs). (name, keep ?notna xs)) (cols df)\<rparr> =
             map (row_at df) ?idx"
  proof -
    have "rows_of \<lparr>nrows = length ?idx,
                   cols = map (\<lambda>(name, xs). (name, map ((!) xs) ?idx)) (cols df)\<rparr> =
          map (\<lambda>j. row_at df (?idx ! j)) [0..<length ?idx]"
      unfolding rows_of_def by (rule map_cong) (simp_all add: row')
    also have "\<dots> = map (row_at df) (map ((!) ?idx) [0..<length ?idx])"
      by (simp add: comp_def)
    also have "\<dots> = map (row_at df) ?idx"
      by (simp only: map_nth)
    finally show ?thesis by (simp only: cols' cnt)
  qed
  have P: "?P (row_at df i) \<longleftrightarrow> \<not> isna (ids ! i)" for i
  proof -
    have "map_of (row_at df i) key = map_option (\<lambda>vs. vs ! i) (map_of (cols df) key)"
      unfolding row_at_def by (rule map_of_map_values)
    then show ?thesis using key by (simp add: column_def)
  qed
  have "filter ?P (rows_of df) = map (row_at df) (filter (?P \<circ> row_at df) [0..<nrows df])"
    by (simp add: rows_of_def filter_map)
  also have "filter (?P \<circ> row_at df) [0..<nrows df] = ?idx"
    by (rule filter_cong) (simp_all add: P)
  finally show ?thesis using lhs by simp
qed

subsection \<open>The Source Loader\<close>

lemma actual_col_map_snoc:
  "actual_col_map (hdr @ [c]) = (actual_col_map hdr)(lower_strip c \<mapsto> c)"
  by (simp add: actual_col_map_def)

lemma actual_col_map_Some:
  "actual_col_map hdr k = Some a \<Longrightarrow> a \<in> set hdr \<and> lower_strip a = k"
proof (induction hdr rule: rev_induct)
  case Nil
  then show ?case by (simp add: actual_col_map_def)
next
  case (snoc c hdr)
  then show ?case by (auto simp: actual_col_map_snoc split: if_splits)
qed

lemma actual_col_map_None_iff:
  "actual_col_map hdr k = None \<longleftrightarrow> k \<notin> lower_strip ` set hdr"
proof (induction hdr rule: rev_induct)
  case Nil
  then show ?case by (simp add: actual_col_map_def)
next
  case (snoc c hdr)
  then show ?case by (auto simp: actual_col_map_snoc)
qed

lemma resolve_columns_missing:
  "snd (snd (resolve_columns acm reqs (u, nm, ms))) =
     ms @ filter (\<lambda>r. acm (lower_strip r) = None) reqs"
  by (induction reqs arbitrary: u nm ms) (auto split: option.splits)

lemma lower_strip_keys:
  "map lower_strip (map fst COLUMN_MAPPING) =
     [''issue key'', ''issue type'', ''updated'', ''status'', ''resolved'']"
  by code_simp

lemma keys_COLUMN_MAPPING:
  "map fst COLUMN_MAPPING = [''Issue Key'', ''Issue Type'', ''Updated'', ''Status'', ''Resolved'']"
  by (simp add: COLUMN_MAPPING_def)

lemma lower_strip_key_simps:
  "lower_strip ''Issue Key'' = ''issue key''"
  "lower_strip ''Issue Type'' = ''issue type''"
  "lower_strip ''Updated'' = ''updated''"
  "lower_strip ''Status'' = ''status''"
  "lower_strip ''Resolved'' = ''resolved''"
  using lower_strip_keys by (simp_all add: keys_COLUMN_MAPPING)

lemma except_UnicodeDecodeError_Inr [simp]:
  "except_UnicodeDecodeError (Inr x) fallback = Inr x"
  by (simp add: except_UnicodeDecodeError_def)

lemma except_UnicodeDecodeError_fallback [simp]:
  "except_UnicodeDecodeError (Inl UnicodeDecodeError) fallback = fallback"
  by (simp add: except_UnicodeDecodeError_def)

lemma read_columns_ok:
  assumes tbl: "csv_table w p UTF8 = Inr tbl \<or>
                (csv_table w p UTF8 = Inl UnicodeDecodeError \<and> csv_table w p Latin1 = Inr tbl)"
    and sub: "set usecols \<subseteq> set (columns_of tbl)"
  shows "read_columns w p usecols = Inr (tbl\<lparr>cols := filter (\<lambda>c. fst c \<in> set usecols) (cols tbl)\<rparr>)"
  using tbl
proof
  assume "csv_table w p UTF8 = Inr tbl"
  then show ?thesis
    using sub by (auto simp: read_columns_def read_csv_usecols_def list_all_iff)
next
  assume "csv_table w p UTF8 = Inl UnicodeDecodeError \<and> csv_table w p Latin1 = Inr tbl"
  then show ?thesis
    using sub by (auto simp: read_columns_def read_csv_usecols_def list_all_iff)
qed

lemma map_of_filter_labels:
  "map_of (filter (\<lambda>c. fst c \<in> S) xs) k = (if k \<in> S then map_of xs k else None)"
  by (induction xs) auto

text \<open>What the loop computes when each of the five required names resolves.\<close>

lemma resolve_columns_all_found:
  assumes "acm ''issue key'' = Some a1" "acm ''issue type'' = Some a2" "acm ''updated'' = Some a3"
    "acm ''status'' = Some a4" "acm ''resolved'' = Some a5"
  shows "resolve_columns acm (map fst COLUMN_MAPPING) ([], Map.empty, []) =
           ([a1, a2, a3, a4, a5],
            [a1 \<mapsto> ''Issue Key'', a2 \<mapsto> ''Issue Type'', a3 \<mapsto> ''Updated'',
             a4 \<mapsto> ''Status'', a5 \<mapsto> ''Resolved''],
            [])"
  using assms by (simp add: keys_COLUMN_MAPPING lower_strip_key_simps)

lemma load_source_data_found:
  assumes ex: "file_exists w p"
    and hdr: "read_header w p = Inr hdr"
    and tbl: "csv_table w p UTF8 = Inr tbl \<or>
              (csv_table w p UTF8 = Inl UnicodeDecodeError \<and> csv_table w p Latin1 = Inr tbl)"
    and same: "columns_of tbl = hdr"
    and a: "actual_col_map hdr ''issue key'' = Some a1" "actual_col_map hdr ''issue type'' = Some a2"
      "actual_col_map hdr ''updated'' = Some a3" "actual_col_map hdr ''status'' = Some a4"
      "actual_col_map hdr ''resolved'' = Some a5"
  shows "load_source_data w p =
           Inr (rename_columns [a1 \<mapsto> ''Issue Key'', a2 \<mapsto> ''Issue Type'', a3 \<mapsto> ''Updated'',
                                a4 \<mapsto> ''Status'', a5 \<mapsto> ''Resolved'']
                  (tbl\<lparr>cols := filter (\<lambda>c. fst c \<in> {a1, a2, a3, a4, a5}) (cols tbl)\<rparr>))"
proof -
  have "set [a1, a2, a3, a4, a5] \<subseteq> set (columns_of tbl)"
    using a actual_col_map_Some [of hdr] same by auto
  then have "read_columns w p [a1, a2, a3, a4, a5] =
               Inr (tbl\<lparr>cols := filter (\<lambda>c. fst c \<in> set [a1, a2, a3, a4, a5]) (cols tbl)\<rparr>)"
    by (rule read_columns_ok [OF tbl])
  then show ?thesis
    using ex hdr resolve_columns_all_found [OF a]
    by (simp add: load_source_data_def except_Exception_def)
qed

lemma actuals_distinct:
  assumes a: "actual_col_map hdr ''issue key'' = Some a1" "actual_col_map hdr ''issue type'' = Some a2"
      "actual_col_map hdr ''updated'' = Some a3" "actual_col_map hdr ''status'' = Some a4"
      "actual_col_map hdr ''resolved'' = Some a5"
  shows "distinct [a1, a2, a3, a4, a5]"
proof -
  have "lower_strip a1 = ''issue key''" "lower_strip a2 = ''issue type''"
    "lower_strip a3 = ''updated''" "lower_strip a4 = ''status''" "lower_strip a5 = ''resolved''"
    using a actual_col_map_Some [of hdr] by auto
  then show ?thesis by auto
qed

text \<open>The loaded Dataset, column by column.\<close>

lemma loaded_columns:
  assumes d: "distinct [a1, a2, a3, a4, a5]"
    and sub: "{a1, a2, a3, a4, a5} \<subseteq> set (columns_of tbl)"
  defines "df \<equiv> rename_columns [a1 \<mapsto> ''Issue Key'', a2 \<mapsto> ''Issue Type'', a3 \<mapsto> ''Updated'',
                                a4 \<mapsto> ''Status'', a5 \<mapsto> ''Resolved'']
                  (tbl\<lparr>cols := filter (\<lambda>c. fst c \<in> {a1, a2, a3, a4, a5}) (cols tbl)\<rparr>)"
  shows "nrows df = nrows tbl"
    and "set (columns_of df) = set (map fst COLUMN_MAPPING)"
    and "column df ''Issue Key'' = column tbl a1"
    and "column df ''Issue Type'' = column tbl a2"
    and "column df ''Updated'' = column tbl a3"
    and "column df ''Status'' = column tbl a4"
    and "column df ''Resolved'' = column tbl a5"
    and "wf_df tbl \<Longrightarrow> wf_df df"
proof -
  let ?m = "[a1 \<mapsto> ''Issue Key'', a2 \<mapsto> ''Issue Type'', a3 \<mapsto> ''Updated'',
             a4 \<mapsto> ''Status'', a5 \<mapsto> ''Resolved'']"
  let ?g = "\<lambda>name. case ?m name of Some name' \<Rightarrow> name' | None \<Rightarrow> name"
  let ?S = "{a1, a2, a3, a4, a5}"
  let ?sel = "tbl\<lparr>cols := filter (\<lambda>c. fst c \<in> ?S) (cols tbl)\<rparr>"
  have g: "?g a1 = ''Issue Key''" "?g a2 = ''Issue Type''" "?g a3 = ''Updated''"
    "?g a4 = ''Status''" "?g a5 = ''Resolved''"
    using d by auto
  have labels: "columns_of ?sel = filter (\<lambda>n. n \<in> ?S) (columns_of tbl)"
    by (simp add: columns_of_def filter_map comp_def)
  have set_sel: "set (columns_of ?sel) = ?S"
  proof -
    have "set (filter (\<lambda>n. n \<in> ?S) (columns_of tbl)) = ?S"
      using sub by auto
    then show ?thesis by (simp only: labels)
  qed
  have inj: "inj_on ?g ?S"
    using d by (auto simp: inj_on_def)
  show n: "nrows df = nrows tbl"
    by (simp add: df_def nrows_rename_columns)
  have names: "columns_of df = map ?g (columns_of ?sel)"
    unfolding df_def by (rule columns_of_rename_columns)
  have "set (columns_of df) = ?g ` ?S"
    by (simp only: names set_map set_sel)
  then show "set (columns_of df) = set (map fst COLUMN_MAPPING)"
    using g by (auto simp: keys_COLUMN_MAPPING)
  have col: "column df (?g k) = column tbl k" if "k \<in> ?S" for k
  proof -
    have "insert k (set (columns_of ?sel)) = ?S"
      using that set_sel by auto
    then have "column df (?g k) = column ?sel k"
      unfolding df_def using column_rename_columns [of ?m k ?sel] inj by simp
    also have "\<dots> = column tbl k"
      using that map_of_filter_labels [of ?S "cols tbl" k] by (simp add: column_def)
    finally show ?thesis .
  qed
  show "column df ''Issue Key'' = column tbl a1" using col [of a1] g by simp
  show "column df ''Issue Type'' = column tbl a2" using col [of a2] g by simp
  show "column df ''Updated'' = column tbl a3" using col [of a3] g by simp
  show "column df ''Status'' = column tbl a4" using col [of a4] g by simp
  show "column df ''Resolved'' = column tbl a5" using col [of a5] g by simp
  show "wf_df df" if wf: "wf_df tbl"
  proof -
    have dsel: "distinct (columns_of ?sel)"
      unfolding labels using wf by (simp add: wf_df_def)
    have inj': "inj_on ?g (set (columns_of ?sel))"
      using inj by (simp only: set_sel)
    have dist: "distinct (columns_of df)"
      unfolding names by (rule iffD2 [OF distinct_map]) (rule conjI [OF dsel inj'])
    have "list_all (\<lambda>c. length (snd c) = nrows tbl) (cols df)"
      using wf by (auto simp: df_def rename_columns_def wf_df_def list_all_iff)
    then show ?thesis
      using dist n by (simp add: wf_df_def)
  qed
qed

lemma rename_target_simps:
  "map_of COLUMN_MAPPING ''Issue Key'' = Some ''Ticket ID''"
  "map_of COLUMN_MAPPING ''Issue Type'' = Some ''Ticket Type''"
  "map_of COLUMN_MAPPING ''Updated'' = Some ''Open Date''"
  "map_of COLUMN_MAPPING ''Status'' = Some ''Status''"
  "map_of COLUMN_MAPPING ''Resolved'' = Some ''Closed Date''"
  by (simp_all add: COLUMN_MAPPING_def)

lemma inj_on_rename_keys:
  "inj_on (\<lambda>name. case map_of COLUMN_MAPPING name of Some name' \<Rightarrow> name' | None \<Rightarrow> name)
     (set (map fst COLUMN_MAPPING))"
  by (simp add: keys_COLUMN_MAPPING rename_target_simps)

lemma column_apply_transformations_constant:
  "(c, v) \<in> set CONSTANTS \<Longrightarrow>
     column (apply_transformations df) c = Some (replicate (nrows df) (Str v))"
  by (auto simp: apply_transformations_def column_inject_constants nrows_rename_columns CONSTANTS_def)

lemma column_apply_transformations_mapped:
  assumes "set (columns_of df) = set (map fst COLUMN_MAPPING)" and "(src, tgt) \<in> set COLUMN_MAPPING"
  shows "column (apply_transformations df) tgt = column df src"
proof -
  let ?g = "\<lambda>name. case map_of COLUMN_MAPPING name of Some name' \<Rightarrow> name' | None \<Rightarrow> name"
  have src: "src \<in> set (map fst COLUMN_MAPPING)"
    using assms(2) by force
  have tgt: "?g src = tgt"
    using assms(2) by (auto simp: COLUMN_MAPPING_def)
  have "insert src (set (columns_of df)) = set (map fst COLUMN_MAPPING)"
    using src assms(1) by auto
  then have "column (rename_columns (map_of COLUMN_MAPPING) df) (?g src) = column df src"
    using column_rename_columns [of "map_of COLUMN_MAPPING" src df] inj_on_rename_keys by simp
  moreover have "map_of (rev CONSTANTS) tgt = None"
    using assms(2) by (auto simp: COLUMN_MAPPING_def CONSTANTS_def)
  ultimately show ?thesis
    by (simp add: apply_transformations_def column_inject_constants tgt)
qed

lemma columns_of_apply_transformations:
  assumes "set (columns_of df) = set (map fst COLUMN_MAPPING)"
  shows "columns_of (apply_transformations df) =
           map (\<lambda>name. case map_of COLUMN_MAPPING name of Some name' \<Rightarrow> name' | None \<Rightarrow> name)
             (columns_of df) @ map fst CONSTANTS"
proof -
  let ?g = "\<lambda>name. case map_of COLUMN_MAPPING name of Some name' \<Rightarrow> name' | None \<Rightarrow> name"
  let ?r = "rename_columns (map_of COLUMN_MAPPING) df"
  have "set (columns_of ?r) = ?g ` set (map fst COLUMN_MAPPING)"
    by (simp only: columns_of_rename_columns set_map assms)
  then have s: "set (columns_of ?r) =
                  {''Ticket ID'', ''Ticket Type'', ''Open Date'', ''Status'', ''Closed Date''}"
    by (simp add: keys_COLUMN_MAPPING rename_target_simps)
  have "columns_of (inject_constants CONSTANTS ?r) = columns_of ?r @ map fst CONSTANTS"
    using s by (simp add: inject_constants_def CONSTANTS_def columns_of_set_scalar)
  then show ?thesis
    by (simp add: apply_transformations_def columns_of_rename_columns)
qed



subsection \<open>The Writer and the orchestrator\<close>

lemma save_target_file_projection_fails:
  "getitem_list df FINAL_COLUMN_ORDER = Inl e \<Longrightarrow> save_target_file w df out = (Inr False, w)"
  by (simp add: save_target_file_def)

lemma save_target_file_write_fails:
  "getitem_list df FINAL_COLUMN_ORDER = Inr d \<Longrightarrow> excel_fault w out d = Some e \<Longrightarrow>
     save_target_file w df out = (Inr False, w)"
  by (simp add: save_target_file_def to_excel_def)

lemma save_target_file_writes:
  "getitem_list df FINAL_COLUMN_ORDER = Inr d \<Longrightarrow> excel_fault w out d = None \<Longrightarrow>
     save_target_file w df out = (Inr True, w\<lparr>sheets := (sheets w)(out \<mapsto> d)\<rparr>)"
  by (simp add: save_target_file_def to_excel_def)

lemma save_target_file_returns: "\<exists>b w'. save_target_file w df out = (Inr b, w')"
proof (cases "getitem_list df FINAL_COLUMN_ORDER")
  case (Inl e)
  then show ?thesis by (auto simp: save_target_file_projection_fails)
next
  case (Inr d)
  then show ?thesis
    by (cases "excel_fault w out d")
       (auto simp: save_target_file_writes save_target_file_write_fails)
qed

lemma save_target_file_True:
  assumes "save_target_file w df out = (Inr True, w')"
  shows "\<exists>d. getitem_list df FINAL_COLUMN_ORDER = Inr d \<and> excel_fault w out d = None \<and>
             w' = w\<lparr>sheets := (sheets w)(out \<mapsto> d)\<rparr>"
proof (cases "getitem_list df FINAL_COLUMN_ORDER")
  case (Inl e)
  then show ?thesis using assms by (simp add: save_target_file_projection_fails)
next
  case (Inr d)
  then show ?thesis
    using assms
    by (cases "excel_fault w out d")
       (simp_all add: save_target_file_writes save_target_file_write_fails)
qed

lemma run_load_fails:
  "load_source_data w i = Inl e \<Longrightarrow> run_transformation_pipeline w i out = (Inr False, w)"
  by (simp add: run_transformation_pipeline_def)

lemma run_clean_fails:
  "load_source_data w i = Inr src \<Longrightarrow> validate_and_clean w (apply_transformations src) = Inl e \<Longrightarrow>
     run_transformation_pipeline w i out = (Inr False, w)"
  by (simp add: run_transformation_pipeline_def)

lemma run_saves:
  assumes "load_source_data w i = Inr src"
    and "validate_and_clean w (apply_transformations src) = Inr df"
  shows "run_transformation_pipeline w i out = save_target_file w df out"
proof -
  obtain b w' where "save_target_file w df out = (Inr b, w')"
    using save_target_file_returns by blast
  then show ?thesis
    using assms by (simp add: run_transformation_pipeline_def)
qed

lemma map_of_tabulate:
  "map_of (map (\<lambda>n. (n, f n)) names) k = (if k \<in> set names then Some (f k) else None)"
  by (induction names) auto

text \<open>
  C2. When the Writer returns \<open>True\<close> on a Dataset, the spreadsheet it wrote has
  the eight columns of \<open>FINAL_COLUMN_ORDER\<close> in that order and no other, with the
  rows and cells of the Dataset. When a column of \<open>FINAL_COLUMN_ORDER\<close> is absent,
  the projection raises a \<open>KeyError\<close> naming the absent labels, the Writer returns
  \<open>False\<close> and nothing is written.
\<close>

theorem save_target_file_final_columns:
  assumes "wf_df df"
  shows "(save_target_file w df out = (Inr True, w') \<longrightarrow>
            (\<exists>sheet. sheets w' out = Some sheet \<and>
               columns_of sheet = FINAL_COLUMN_ORDER \<and>
               nrows sheet = nrows df \<and>
               (\<forall>name \<in> set FINAL_COLUMN_ORDER. column sheet name = column df name))) \<and>
         (\<not> set FINAL_COLUMN_ORDER \<subseteq> set (columns_of df) \<longrightarrow>
            getitem_list df FINAL_COLUMN_ORDER =
              Inl (KeyError (filter (\<lambda>n. n \<notin> set (columns_of df)) FINAL_COLUMN_ORDER)) \<and>
            filter (\<lambda>n. n \<notin> set (columns_of df)) FINAL_COLUMN_ORDER \<noteq> [] \<and>
            save_target_file w df out = (Inr False, w))"
proof (intro conjI impI)
  assume ok: "save_target_file w df out = (Inr True, w')"
  then obtain d where d: "getitem_list df FINAL_COLUMN_ORDER = Inr d"
    and w': "w' = w\<lparr>sheets := (sheets w)(out \<mapsto> d)\<rparr>"
    using save_target_file_True by blast
  have sub: "set FINAL_COLUMN_ORDER \<subseteq> set (columns_of df)"
    using d getitem_list_missing(1) [of FINAL_COLUMN_ORDER df] by auto
  have dist: "distinct (columns_of df)"
    using assms by (simp add: wf_df_def)
  have d_eq: "d = df\<lparr>cols := map (\<lambda>n. (n, the (column df n))) FINAL_COLUMN_ORDER\<rparr>"
    using d getitem_list_present [OF sub dist] by simp
  have "columns_of d = FINAL_COLUMN_ORDER"
    by (simp add: d_eq columns_of_def comp_def)
  moreover have "nrows d = nrows df"
    by (simp add: d_eq)
  moreover have "column d name = column df name" if "name \<in> set FINAL_COLUMN_ORDER" for name
  proof -
    have "column df name \<noteq> None"
      using that sub by (auto simp: column_eq_None_iff)
    then show ?thesis
      using that by (auto simp: d_eq column_def map_of_tabulate)
  qed
  ultimately show "\<exists>sheet. sheets w' out = Some sheet \<and>
               columns_of sheet = FINAL_COLUMN_ORDER \<and>
               nrows sheet = nrows df \<and>
               (\<forall>name \<in> set FINAL_COLUMN_ORDER. column sheet name = column df name)"
    by (simp add: w')
next
  assume "\<not> set FINAL_COLUMN_ORDER \<subseteq> set (columns_of df)"
  then show "getitem_list df FINAL_COLUMN_ORDER =
              Inl (KeyError (filter (\<lambda>n. n \<notin> set (columns_of df)) FINAL_COLUMN_ORDER))"
    by (rule getitem_list_missing(1))
next
  assume "\<not> set FINAL_COLUMN_ORDER \<subseteq> set (columns_of df)"
  then show "filter (\<lambda>n. n \<notin> set (columns_of df)) FINAL_COLUMN_ORDER \<noteq> []"
    by (rule getitem_list_missing(2))
next
  assume "\<not> set FINAL_COLUMN_ORDER \<subseteq> set (columns_of df)"
  then show "save_target_file w df out = (Inr False, w)"
    using getitem_list_missing(1) [of FINAL_COLUMN_ORDER df]
    by (simp add: save_target_file_projection_fails)
qed

text \<open>A cleaned Dataset: \<open>example_mapped\<close> after the Mapper's constants and the Cleaner.\<close>

lemma wf_df_example_mapped: "wf_df example_mapped"
  by (simp add: wf_df_def example_mapped_def columns_of_def)

lemma wf_df_example_loaded: "wf_df example_loaded"
  by (simp add: wf_df_def example_loaded_def columns_of_def)

theorem save_target_file_final_columns_witness:
  "wf_df (inject_constants CONSTANTS example_mapped) \<and>
   wf_df example_loaded \<and>
   save_target_file example_world (inject_constants CONSTANTS example_mapped) ''out.xlsx'' =
     (Inr True, example_world\<lparr>sheets := [''out.xlsx'' \<mapsto>
        \<lparr>nrows = 3,
         cols = [(''Ticket ID'', [Str ''A-1'', NaN, Str ''A-3'']),
                 (''Ticket Type'', [Str ''Bug'', Str ''Task'', Str ''Bug'']),
                 (''Open Date'', [Str ''2024-01-01'', Str ''2024-01-01'', Str ''yesterday'']),
                 (''Priority'', [Str ''NONE'', Str ''NONE'', Str ''NONE'']),
                 (''Status'', [Str ''Open'', Str ''Open'', Str ''Done'']),
                 (''Application'', [Str ''HMOF'', Str ''HMOF'', Str ''HMOF'']),
                 (''Assignment Group'',
                  [Str ''HMH Support Group'', Str ''HMH Support Group'', Str ''HMH Support Group'']),
                 (''Closed Date'', [Str ''soon'', NaN, Str ''2024-01-01''])]\<rparr>]\<rparr>) \<and>
   columns_of \<lparr>nrows = 3,
         cols = [(''Ticket ID'', [Str ''A-1'', NaN, Str ''A-3'']),
                 (''Ticket Type'', [Str ''Bug'', Str ''Task'', Str ''Bug'']),
                 (''Open Date'', [Str ''2024-01-01'', Str ''2024-01-01'', Str ''yesterday'']),
                 (''Priority'', [Str ''NONE'', Str ''NONE'', Str ''NONE'']),
                 (''Status'', [Str ''Open'', Str ''Open'', Str ''Done'']),
                 (''Application'', [Str ''HMOF'', Str ''HMOF'', Str ''HMOF'']),
                 (''Assignment Group'',
                  [Str ''HMH Support Group'', Str ''HMH Support Group'', Str ''HMH Support Group'']),
                 (''Closed Date'', [Str ''soon'', NaN, Str ''2024-01-01''])]\<rparr> = FINAL_COLUMN_ORDER \<and>
   getitem_list example_loaded FINAL_COLUMN_ORDER = Inl (KeyError
       [''Ticket ID'', ''Ticket Type'', ''Open Date'', ''Priority'', ''Application'',
        ''Assignment Group'', ''Closed Date'']) \<and>
   save_target_file example_world example_loaded ''out.xlsx'' = (Inr False, example_world)"
proof -
  have three: "replicate 3 x = [x, x, x]" for x :: cell
    by (simp add: numeral_3_eq_3)
  have inj: "inject_constants CONSTANTS example_mapped =
     \<lparr>nrows = 3,
      cols = [(''Ticket ID'', [Str ''A-1'', NaN, Str ''A-3'']),
              (''Ticket Type'', [Str ''Bug'', Str ''Task'', Str ''Bug'']),
              (''Open Date'', [Str ''2024-01-01'', Str ''2024-01-01'', Str ''yesterday'']),
              (''Status'', [Str ''Open'', Str ''Open'', Str ''Done'']),
              (''Closed Date'', [Str ''soon'', NaN, Str ''2024-01-01'']),
              (''Priority'', [Str ''NONE'', Str ''NONE'', Str ''NONE'']),
              (''Notes'', [NaN, NaN, Str ''n'']),
              (''Application'', [Str ''HMOF'', Str ''HMOF'', Str ''HMOF'']),
              (''Assignment Group'',
               [Str ''HMH Support Group'', Str ''HMH Support Group'', Str ''HMH Support Group''])]\<rparr>"
    by (simp add: inject_constants_def CONSTANTS_def example_mapped_def set_scalar_def
        columns_of_def three)
  have wf: "wf_df (inject_constants CONSTANTS example_mapped)"
    by (simp add: inj wf_df_def columns_of_def)
  have s: "save_target_file example_world (inject_constants CONSTANTS example_mapped) ''out.xlsx'' =
     (Inr True, example_world\<lparr>sheets := [''out.xlsx'' \<mapsto>
        \<lparr>nrows = 3,
         cols = [(''Ticket ID'', [Str ''A-1'', NaN, Str ''A-3'']),
                 (''Ticket Type'', [Str ''Bug'', Str ''Task'', Str ''Bug'']),
                 (''Open Date'', [Str ''2024-01-01'', Str ''2024-01-01'', Str ''yesterday'']),
                 (''Priority'', [Str ''NONE'', Str ''NONE'', Str ''NONE'']),
                 (''Status'', [Str ''Open'', Str ''Open'', Str ''Done'']),
                 (''Application'', [Str ''HMOF'', Str ''HMOF'', Str ''HMOF'']),
                 (''Assignment Group'',
                  [Str ''HMH Support Group'', Str ''HMH Support Group'', Str ''HMH Support Group'']),
                 (''Closed Date'', [Str ''soon'', NaN, Str ''2024-01-01''])]\<rparr>]\<rparr>)"
    by (simp add: inj save_target_file_def getitem_list_def FINAL_COLUMN_ORDER_def columns_of_def
        to_excel_def example_world_def)
  have nsub: "\<not> set FINAL_COLUMN_ORDER \<subseteq> set (columns_of example_loaded)"
    by (simp add: FINAL_COLUMN_ORDER_def example_loaded_def columns_of_def)
  have miss: "filter (\<lambda>n. n \<notin> set (columns_of example_loaded)) FINAL_COLUMN_ORDER =
       [''Ticket ID'', ''Ticket Type'', ''Open Date'', ''Priority'', ''Application'',
        ''Assignment Group'', ''Closed Date'']"
    by (simp add: FINAL_COLUMN_ORDER_def example_loaded_def columns_of_def)
  show ?thesis
    using save_target_file_final_columns [OF wf, of example_world "''out.xlsx''"
        "example_world\<lparr>sheets := [''out.xlsx'' \<mapsto>
        \<lparr>nrows = 3,
         cols = [(''Ticket ID'', [Str ''A-1'', NaN, Str ''A-3'']),
                 (''Ticket Type'', [Str ''Bug'', Str ''Task'', Str ''Bug'']),
                 (''Open Date'', [Str ''2024-01-01'', Str ''2024-01-01'', Str ''yesterday'']),
                 (''Priority'', [Str ''NONE'', Str ''NONE'', Str ''NONE'']),
                 (''Status'', [Str ''Open'', Str ''Open'', Str ''Done'']),
                 (''Application'', [Str ''HMOF'', Str ''HMOF'', Str ''HMOF'']),
                 (''Assignment Group'',
                  [Str ''HMH Support Group'', Str ''HMH Support Group'', Str ''HMH Support Group'']),
                 (''Closed Date'', [Str ''soon'', NaN, Str ''2024-01-01''])]\<rparr>]\<rparr>"]
      save_target_file_final_columns [OF wf_df_example_loaded, of example_world "''out.xlsx''" example_world]
      wf wf_df_example_loaded s nsub miss
    by (simp add: columns_of_def FINAL_COLUMN_ORDER_def)
qed

subsection \<open>Dropping rows without a key\<close>

lemma length_filter_isna:
  "length (filter (\<lambda>c. \<not> isna c) ids) = length ids - length (filter isna ids)"
  using sum_length_filter_compl [of isna ids] by simp

text \<open>
  C5. On a Dataset that has the columns \<open>Ticket ID\<close> and \<open>Closed Date\<close>, the
  Validator/Cleaner succeeds. Its first step keeps exactly the rows whose Ticket ID
  is not null, unchanged and in their order; the cleaned Dataset has as many rows
  as that step left, so the row count drops by the number of null Ticket IDs; and
  every column but the two date columns holds the kept rows' cells as they were.
\<close>

theorem validate_and_clean_drops_keyless_rows:
  assumes "wf_df df"
    and "column df ''Ticket ID'' = Some ids"
    and "column df ''Closed Date'' = Some closed"
  shows "\<exists>kept cleaned.
           dropna_subset ''Ticket ID'' df = Inr kept \<and>
           rows_of kept =
             filter (\<lambda>r. case map_of r ''Ticket ID'' of Some c \<Rightarrow> \<not> isna c | None \<Rightarrow> False)
               (rows_of df) \<and>
           validate_and_clean w df = Inr cleaned \<and>
           nrows cleaned = nrows kept \<and>
           nrows cleaned = nrows df - length (filter isna ids) \<and>
           length (filter isna ids) \<le> nrows df \<and>
           column cleaned ''Ticket ID'' = Some (filter (\<lambda>c. \<not> isna c) ids) \<and>
           (\<forall>name. name \<noteq> ''Open Date'' \<and> name \<noteq> ''Closed Date'' \<longrightarrow>
              column cleaned name = column kept name)"
proof -
  let ?notna = "map (\<lambda>c. \<not> isna c) ids"
  let ?kept = "\<lparr>nrows = length (filter (\<lambda>c. \<not> isna c) ids),
               cols = map (\<lambda>(name, xs). (name, keep ?notna xs)) (cols df)\<rparr>"
  have k: "dropna_subset ''Ticket ID'' df = Inr ?kept"
    by (rule dropna_subset_present [OF assms(2)])
  have r: "rows_of ?kept =
             filter (\<lambda>r. case map_of r ''Ticket ID'' of Some c \<Rightarrow> \<not> isna c | None \<Rightarrow> False)
               (rows_of df)"
    by (rule rows_of_dropna [OF assms(1,2)])
  have "(''Ticket ID'', ids) \<in> set (cols df)"
    using assms(2) by (simp add: column_def map_of_SomeD)
  then have n: "length ids = nrows df"
    using assms(1) by (auto simp: wf_df_def list_all_iff)
  have ck: "column ?kept name = map_option (keep ?notna) (column df name)" for name
    by (rule column_dropped)
  have self: "keep ?notna ids = filter (\<lambda>c. \<not> isna c) ids"
    by (simp add: keep_def filter_map comp_def zip_map1 zip_same_conv_map)
  obtain cleaned where c: "validate_and_clean w df = Inr cleaned"
    and cn: "nrows cleaned = length (filter (\<lambda>c. \<not> isna c) ids)"
    and cc: "\<And>name. column cleaned name =
              (if name = ''Closed Date''
               then Some (fillna (Str []) (to_datetime_coerce (parse_date w) (keep ?notna closed)))
               else if name = ''Open Date''
               then map_option (\<lambda>vs. to_datetime_coerce (parse_date w) (keep ?notna vs)) (column df name)
               else map_option (keep ?notna) (column df name))"
    using validate_and_clean_present [OF assms(2,3), of w] by blast
  have "nrows cleaned = nrows ?kept"
    by (simp add: cn)
  moreover have "nrows cleaned = nrows df - length (filter isna ids)"
    by (simp add: cn length_filter_isna n)
  moreover have "length (filter isna ids) \<le> nrows df"
    using length_filter_le [of isna ids] by (simp add: n)
  moreover have "column cleaned ''Ticket ID'' = Some (filter (\<lambda>c. \<not> isna c) ids)"
    by (simp add: cc assms(2) self)
  moreover have "\<forall>name. name \<noteq> ''Open Date'' \<and> name \<noteq> ''Closed Date'' \<longrightarrow>
              column cleaned name = column ?kept name"
    by (simp add: cc ck)
  ultimately show ?thesis
    using k r c by blast
qed

lemma validate_and_clean_example_mapped:
  "validate_and_clean example_world example_mapped =
     Inr \<lparr>nrows = 2,
          cols = [(''Ticket ID'', [Str ''A-1'', Str ''A-3'']),
                  (''Ticket Type'', [Str ''Bug'', Str ''Bug'']),
                  (''Open Date'', [Timestamp 1704067200000000000, NaT]),
                  (''Status'', [Str ''Open'', Str ''Done'']),
                  (''Closed Date'', [Str [], Timestamp 1704067200000000000]),
                  (''Priority'', [Str ''High'', Str ''Low'']),
                  (''Notes'', [NaN, Str ''n''])]\<rparr>"
  by (simp add: validate_and_clean_def dropna_subset_def column_def example_mapped_def keep_def
      coerce_dates_def set_series_def to_datetime_coerce_def getitem_def fillna_def example_world_def)

theorem validate_and_clean_drops_keyless_rows_witness:
  "wf_df example_mapped \<and>
   column example_mapped ''Ticket ID'' = Some [Str ''A-1'', NaN, Str ''A-3''] \<and>
   column example_mapped ''Closed Date'' = Some [Str ''soon'', NaN, Str ''2024-01-01''] \<and>
   (\<exists>kept cleaned.
      dropna_subset ''Ticket ID'' example_mapped = Inr kept \<and>
      length (rows_of kept) = 2 \<and>
      validate_and_clean example_world example_mapped = Inr cleaned \<and>
      nrows cleaned = 2 \<and>
      column cleaned ''Ticket ID'' = Some [Str ''A-1'', Str ''A-3''] \<and>
      column cleaned ''Notes'' = Some [NaN, Str ''n''])"
proof -
  have i: "column example_mapped ''Ticket ID'' = Some [Str ''A-1'', NaN, Str ''A-3'']"
    by (simp add: column_def example_mapped_def)
  have c: "column example_mapped ''Closed Date'' = Some [Str ''soon'', NaN, Str ''2024-01-01'']"
    by (simp add: column_def example_mapped_def)
  obtain kept cleaned where
    "dropna_subset ''Ticket ID'' example_mapped = Inr kept"
    "validate_and_clean example_world example_mapped = Inr cleaned"
    "nrows cleaned = nrows kept"
    "nrows cleaned = nrows example_mapped - length (filter isna [Str ''A-1'', NaN, Str ''A-3''])"
    "column cleaned ''Ticket ID'' = Some (filter (\<lambda>c. \<not> isna c) [Str ''A-1'', NaN, Str ''A-3''])"
    "\<forall>name. name \<noteq> ''Open Date'' \<and> name \<noteq> ''Closed Date'' \<longrightarrow>
              column cleaned name = column kept name"
    using validate_and_clean_drops_keyless_rows [OF wf_df_example_mapped i c, of example_world]
    by blast
  moreover from this have "cleaned = \<lparr>nrows = 2,
          cols = [(''Ticket ID'', [Str ''A-1'', Str ''A-3'']),
                  (''Ticket Type'', [Str ''Bug'', Str ''Bug'']),
                  (''Open Date'', [Timestamp 1704067200000000000, NaT]),
                  (''Status'', [Str ''Open'', Str ''Done'']),
                  (''Closed Date'', [Str [], Timestamp 1704067200000000000]),
                  (''Priority'', [Str ''High'', Str ''Low'']),
                  (''Notes'', [NaN, Str ''n''])]\<rparr>"
    by (simp add: validate_and_clean_example_mapped)
  ultimately show ?thesis
    using wf_df_example_mapped i c
    by (auto simp: rows_of_def column_def example_mapped_def)
qed

subsection \<open>What a successful load has read\<close>

lemma read_csv_usecols_Inr:
  assumes "read_csv_usecols w p usecols enc = Inr d"
  shows "\<exists>tbl. csv_table w p enc = Inr tbl \<and> set usecols \<subseteq> set (columns_of tbl) \<and>
           d = tbl\<lparr>cols := filter (\<lambda>c. fst c \<in> set usecols) (cols tbl)\<rparr>"
  using assms
  by (auto simp: read_csv_usecols_def list_all_iff split: sum.splits if_splits)

lemma read_columns_Inr:
  assumes "read_columns w p usecols = Inr d"
  shows "\<exists>tbl. set usecols \<subseteq> set (columns_of tbl) \<and>
           d = tbl\<lparr>cols := filter (\<lambda>c. fst c \<in> set usecols) (cols tbl)\<rparr>"
proof (cases "read_csv_usecols w p usecols UTF8 = Inl UnicodeDecodeError")
  case True
  then have "read_csv_usecols w p usecols Latin1 = Inr d"
    using assms by (simp add: read_columns_def)
  then show ?thesis using read_csv_usecols_Inr by blast
next
  case False
  then have "read_csv_usecols w p usecols UTF8 = Inr d"
    using assms by (simp add: read_columns_def except_UnicodeDecodeError_def)
  then show ?thesis using read_csv_usecols_Inr by blast
qed

lemma resolve_columns_cases:
  obtains
    (found) a1 a2 a3 a4 a5 where
      "acm ''issue key'' = Some a1" "acm ''issue type'' = Some a2" "acm ''updated'' = Some a3"
      "acm ''status'' = Some a4" "acm ''resolved'' = Some a5"
  | (missing) "filter (\<lambda>r. acm (lower_strip r) = None) (map fst COLUMN_MAPPING) \<noteq> []"
proof (cases "filter (\<lambda>r. acm (lower_strip r) = None) (map fst COLUMN_MAPPING) = []")
  case True
  then have "acm ''issue key'' \<noteq> None \<and> acm ''issue type'' \<noteq> None \<and> acm ''updated'' \<noteq> None \<and>
             acm ''status'' \<noteq> None \<and> acm ''resolved'' \<noteq> None"
    by (simp add: keys_COLUMN_MAPPING lower_strip_key_simps split: if_splits)
  then show ?thesis using found by auto
next
  case False
  then show ?thesis by (rule missing)
qed

lemma load_source_data_missing:
  assumes "file_exists w p" and "read_header w p = Inr hdr"
    and "filter (\<lambda>r. actual_col_map hdr (lower_strip r) = None) (map fst COLUMN_MAPPING) \<noteq> []"
  shows "load_source_data w p =
           Inl (ValueError (''Missing required columns: '' @
                  py_repr_list (filter (\<lambda>r. actual_col_map hdr (lower_strip r) = None)
                                  (map fst COLUMN_MAPPING))))"
proof -
  obtain u nm ms where r: "resolve_columns (actual_col_map hdr) (map fst COLUMN_MAPPING)
                             ([], Map.empty, []) = (u, nm, ms)"
    by (cases "resolve_columns (actual_col_map hdr) (map fst COLUMN_MAPPING) ([], Map.empty, [])")
  have "ms = filter (\<lambda>r. actual_col_map hdr (lower_strip r) = None) (map fst COLUMN_MAPPING)"
    using resolve_columns_missing [of "actual_col_map hdr" "map fst COLUMN_MAPPING" "[]" Map.empty "[]"] r
    by simp
  then show ?thesis
    using assms r by (simp add: load_source_data_def except_Exception_def)
qed

lemma load_source_data_Inr:
  assumes "load_source_data w p = Inr src"
  obtains hdr tbl a1 a2 a3 a4 a5 where
    "read_header w p = Inr hdr"
    "actual_col_map hdr ''issue key'' = Some a1" "actual_col_map hdr ''issue type'' = Some a2"
    "actual_col_map hdr ''updated'' = Some a3" "actual_col_map hdr ''status'' = Some a4"
    "actual_col_map hdr ''resolved'' = Some a5"
    "{a1, a2, a3, a4, a5} \<subseteq> set (columns_of tbl)"
    "src = rename_columns [a1 \<mapsto> ''Issue Key'', a2 \<mapsto> ''Issue Type'', a3 \<mapsto> ''Updated'',
                           a4 \<mapsto> ''Status'', a5 \<mapsto> ''Resolved'']
             (tbl\<lparr>cols := filter (\<lambda>c. fst c \<in> {a1, a2, a3, a4, a5}) (cols tbl)\<rparr>)"
proof -
  have ex: "file_exists w p"
    using assms by (auto simp: load_source_data_def split: if_splits)
  obtain hdr where hdr: "read_header w p = Inr hdr"
    using assms ex by (cases "read_header w p") (auto simp: load_source_data_def except_Exception_def)
  show ?thesis
  proof (cases "actual_col_map hdr" rule: resolve_columns_cases)
    case missing
    then show ?thesis
      using assms load_source_data_missing [OF ex hdr] by simp
  next
    case (found a1 a2 a3 a4 a5)
    have "(case read_columns w p [a1, a2, a3, a4, a5] of
             Inl e \<Rightarrow> Inl e
           | Inr df \<Rightarrow> Inr (rename_columns [a1 \<mapsto> ''Issue Key'', a2 \<mapsto> ''Issue Type'',
                              a3 \<mapsto> ''Updated'', a4 \<mapsto> ''Status'', a5 \<mapsto> ''Resolved''] df)) = Inr src"
      using assms ex hdr resolve_columns_all_found [OF found]
      by (simp add: load_source_data_def except_Exception_def split: sum.splits)
    then obtain d where d: "read_columns w p [a1, a2, a3, a4, a5] = Inr d"
      and src: "src = rename_columns [a1 \<mapsto> ''Issue Key'', a2 \<mapsto> ''Issue Type'',
                              a3 \<mapsto> ''Updated'', a4 \<mapsto> ''Status'', a5 \<mapsto> ''Resolved''] d"
      by (cases "read_columns w p [a1, a2, a3, a4, a5]") auto
    obtain tbl where "set [a1, a2, a3, a4, a5] \<subseteq> set (columns_of tbl)"
      and "d = tbl\<lparr>cols := filter (\<lambda>c. fst c \<in> set [a1, a2, a3, a4, a5]) (cols tbl)\<rparr>"
      using read_columns_Inr [OF d] by blast
    then show ?thesis
      using that [OF hdr found, of tbl] src by simp
  qed
qed

lemma load_source_data_Inr_columns:
  assumes "load_source_data w p = Inr src"
  shows "set (columns_of src) = set (map fst COLUMN_MAPPING)"
  using assms
proof (rule load_source_data_Inr)
  fix hdr tbl a1 a2 a3 a4 a5
  assume a: "actual_col_map hdr ''issue key'' = Some a1" "actual_col_map hdr ''issue type'' = Some a2"
    "actual_col_map hdr ''updated'' = Some a3" "actual_col_map hdr ''status'' = Some a4"
    "actual_col_map hdr ''resolved'' = Some a5"
    and sub: "{a1, a2, a3, a4, a5} \<subseteq> set (columns_of tbl)"
    and src: "src = rename_columns [a1 \<mapsto> ''Issue Key'', a2 \<mapsto> ''Issue Type'', a3 \<mapsto> ''Updated'',
                           a4 \<mapsto> ''Status'', a5 \<mapsto> ''Resolved'']
             (tbl\<lparr>cols := filter (\<lambda>c. fst c \<in> {a1, a2, a3, a4, a5}) (cols tbl)\<rparr>)"
  show ?thesis
    unfolding src by (rule loaded_columns(2) [OF actuals_distinct [OF a] sub])
qed

subsection \<open>The stages after a successful load\<close>

lemma set_FINAL_COLUMN_ORDER:
  "set FINAL_COLUMN_ORDER = set (map snd COLUMN_MAPPING) \<union> set (map fst CONSTANTS)"
  by (auto simp: FINAL_COLUMN_ORDER_def COLUMN_MAPPING_def CONSTANTS_def)

lemma set_columns_of_apply_transformations:
  assumes "set (columns_of df) = set (map fst COLUMN_MAPPING)"
  shows "set (columns_of (apply_transformations df)) = set FINAL_COLUMN_ORDER"
proof -
  have "set (columns_of (apply_transformations df)) =
          (\<lambda>name. case map_of COLUMN_MAPPING name of Some name' \<Rightarrow> name' | None \<Rightarrow> name) `
            set (map fst COLUMN_MAPPING) \<union> set (map fst CONSTANTS)"
    by (simp only: columns_of_apply_transformations [OF assms] set_append set_map assms)
  then show ?thesis
    by (simp add: set_FINAL_COLUMN_ORDER keys_COLUMN_MAPPING rename_target_simps)
       (auto simp: COLUMN_MAPPING_def)
qed

lemma clean_after_load:
  assumes "set (columns_of src) = set (map fst COLUMN_MAPPING)"
  shows "\<exists>cleaned. validate_and_clean w (apply_transformations src) = Inr cleaned \<and>
           set (columns_of cleaned) = set FINAL_COLUMN_ORDER"
proof -
  have cols: "set (columns_of (apply_transformations src)) = set FINAL_COLUMN_ORDER"
    by (rule set_columns_of_apply_transformations [OF assms])
  then have "column (apply_transformations src) ''Ticket ID'' \<noteq> None"
    and "column (apply_transformations src) ''Closed Date'' \<noteq> None"
    by (simp_all add: column_eq_None_iff FINAL_COLUMN_ORDER_def)
  then obtain ids closed where "column (apply_transformations src) ''Ticket ID'' = Some ids"
    and "column (apply_transformations src) ''Closed Date'' = Some closed"
    by auto
  then show ?thesis
    using validate_and_clean_present [of "apply_transformations src" ids closed w] cols
    by auto
qed

lemma getitem_list_Inr:
  "set names \<subseteq> set (columns_of df) \<Longrightarrow> \<exists>d. getitem_list df names = Inr d"
  by (auto simp: getitem_list_def Let_def filter_empty_conv)

lemma run_succeeds_after_load:
  assumes "load_source_data w i = Inr src" and "\<forall>d. excel_fault w out d = None"
  shows "fst (run_transformation_pipeline w i out) = Inr True"
proof -
  obtain cleaned where c: "validate_and_clean w (apply_transformations src) = Inr cleaned"
    and cols: "set (columns_of cleaned) = set FINAL_COLUMN_ORDER"
    using clean_after_load [OF load_source_data_Inr_columns [OF assms(1)]] by blast
  obtain d where "getitem_list cleaned FINAL_COLUMN_ORDER = Inr d"
    using getitem_list_Inr [of FINAL_COLUMN_ORDER cleaned] cols by auto
  then have "save_target_file w cleaned out = (Inr True, w\<lparr>sheets := (sheets w)(out \<mapsto> d)\<rparr>)"
    using assms(2) by (simp add: save_target_file_writes)
  then show ?thesis
    by (simp add: run_saves [OF assms(1) c])
qed

subsection \<open>The example file, stage by stage\<close>

lemma actual_col_map_example:
  "actual_col_map (columns_of example_table) ''issue key'' = Some ''issue key''"
  "actual_col_map (columns_of example_table) ''issue type'' = Some ''ISSUE TYPE''"
  "actual_col_map (columns_of example_table) ''updated'' = Some ''updated''"
  "actual_col_map (columns_of example_table) ''status'' = Some '' Status ''"
  "actual_col_map (columns_of example_table) ''resolved'' = Some ''RESOLVED''"
  by code_simp+

lemma read_header_example: "read_header example_world p = Inr (columns_of example_table)"
  by (simp add: read_header_def example_world_def)

lemma load_source_data_example: "load_source_data example_world ''in.csv'' = Inr example_loaded"
proof -
  have "load_source_data example_world ''in.csv'' =
          Inr (rename_columns [''issue key'' \<mapsto> ''Issue Key'', ''ISSUE TYPE'' \<mapsto> ''Issue Type'',
                 ''updated'' \<mapsto> ''Updated'', '' Status '' \<mapsto> ''Status'', ''RESOLVED'' \<mapsto> ''Resolved'']
                 (example_table\<lparr>cols := filter (\<lambda>c. fst c \<in> {''issue key'', ''ISSUE TYPE'', ''updated'',
                     '' Status '', ''RESOLVED''}) (cols example_table)\<rparr>))"
    by (rule load_source_data_found [OF _ read_header_example _ refl actual_col_map_example])
       (simp_all add: example_world_def)
  then show ?thesis
    by (simp add: rename_columns_def example_table_def example_loaded_def)
qed

text \<open>
  C6. On a mapped Dataset (one that has the columns \<open>Ticket ID\<close> and
  \<open>Closed Date\<close>) the Validator/Cleaner returns a Dataset, whatever the date
  columns hold. Every kept cell of \<open>Open Date\<close> is coerced, and a text the parser
  gives no date becomes \<open>NaT\<close>; every kept cell of \<open>Closed Date\<close> is coerced and a
  null result is then replaced by the empty string, so a text that is no date ends
  as the empty string there. A run whose load succeeded and whose spreadsheet
  writer does not fail returns \<open>True\<close>, whatever the date parser accepts.
\<close>

theorem validate_and_clean_coerces_dates:
  assumes "column df ''Ticket ID'' = Some ids"
    and "column df ''Closed Date'' = Some closed"
  shows "(\<exists>cleaned. validate_and_clean w df = Inr cleaned \<and>
            column cleaned ''Open Date'' =
              map_option (\<lambda>vs. map (coerce_cell (parse_date w)) (keep (map (\<lambda>c. \<not> isna c) ids) vs))
                (column df ''Open Date'') \<and>
            column cleaned ''Closed Date'' =
              Some (map (\<lambda>c. if isna (coerce_cell (parse_date w) c) then Str []
                              else coerce_cell (parse_date w) c)
                      (keep (map (\<lambda>c. \<not> isna c) ids) closed))) \<and>
         (\<forall>s. parse_date w s = None \<longrightarrow>
            coerce_cell (parse_date w) (Str s) = NaT \<and>
            fillna (Str []) (to_datetime_coerce (parse_date w) [Str s]) = [Str []]) \<and>
         (\<forall>i out src. load_source_data w i = Inr src \<and> (\<forall>d. excel_fault w out d = None) \<longrightarrow>
            fst (run_transformation_pipeline w i out) = Inr True)"
proof -
  obtain cleaned where c: "validate_and_clean w df = Inr cleaned"
    and cc: "\<And>name. column cleaned name =
              (if name = ''Closed Date''
               then Some (fillna (Str []) (to_datetime_coerce (parse_date w)
                            (keep (map (\<lambda>c. \<not> isna c) ids) closed)))
               else if name = ''Open Date''
               then map_option (\<lambda>vs. to_datetime_coerce (parse_date w)
                            (keep (map (\<lambda>c. \<not> isna c) ids) vs)) (column df name)
               else map_option (keep (map (\<lambda>c. \<not> isna c) ids)) (column df name))"
    using validate_and_clean_present [OF assms, of w] by blast
  have "column cleaned ''Open Date'' =
              map_option (\<lambda>vs. map (coerce_cell (parse_date w)) (keep (map (\<lambda>c. \<not> isna c) ids) vs))
                (column df ''Open Date'')"
    by (simp add: cc to_datetime_coerce_def)
  moreover have "column cleaned ''Closed Date'' =
              Some (map (\<lambda>c. if isna (coerce_cell (parse_date w) c) then Str []
                              else coerce_cell (parse_date w) c)
                      (keep (map (\<lambda>c. \<not> isna c) ids) closed))"
    by (simp add: cc to_datetime_coerce_def fillna_def comp_def)
  ultimately show ?thesis
    using c run_succeeds_after_load [of w]
    by (auto simp: fillna_def to_datetime_coerce_def)
qed

theorem validate_and_clean_coerces_dates_witness:
  "column example_mapped ''Ticket ID'' = Some [Str ''A-1'', NaN, Str ''A-3''] \<and>
   column example_mapped ''Closed Date'' = Some [Str ''soon'', NaN, Str ''2024-01-01''] \<and>
   column example_mapped ''Open Date'' = Some [Str ''2024-01-01'', Str ''2024-01-01'', Str ''yesterday''] \<and>
   parse_date example_world ''yesterday'' = None \<and>
   parse_date example_world ''soon'' = None \<and>
   (\<exists>cleaned. validate_and_clean example_world example_mapped = Inr cleaned \<and>
      column cleaned ''Open Date'' = Some [Timestamp 1704067200000000000, NaT] \<and>
      column cleaned ''Closed Date'' = Some [Str [], Timestamp 1704067200000000000]) \<and>
   load_source_data example_world ''in.csv'' = Inr example_loaded \<and>
   fst (run_transformation_pipeline example_world ''in.csv'' ''out.xlsx'') = Inr True"
proof -
  have i: "column example_mapped ''Ticket ID'' = Some [Str ''A-1'', NaN, Str ''A-3'']"
    by (simp add: column_def example_mapped_def)
  have c: "column example_mapped ''Closed Date'' = Some [Str ''soon'', NaN, Str ''2024-01-01'']"
    by (simp add: column_def example_mapped_def)
  have o: "column example_mapped ''Open Date'' =
             Some [Str ''2024-01-01'', Str ''2024-01-01'', Str ''yesterday'']"
    by (simp add: column_def example_mapped_def)
  have nofault: "\<forall>d. excel_fault example_world ''out.xlsx'' d = None"
    by (simp add: example_world_def)
  have p: "parse_date example_world =
             (\<lambda>s. if s = ''2024-01-01'' then Some 1704067200000000000 else None)"
    by (simp add: example_world_def)
  show ?thesis
    using validate_and_clean_coerces_dates [OF i c, of example_world]
      load_source_data_example nofault i c o
    by (simp add: keep_def p)
qed

text \<open>
  C10, as the code has it. The Validator/Cleaner returns a Dataset only on a
  Dataset that has a \<open>Closed Date\<close> column: the date loop skips an absent column,
  but the final \<open>fillna\<close> reads \<open>Closed Date\<close> unguarded, so without that column the
  result is a \<open>KeyError\<close> (for \<open>Ticket ID\<close> when that column is absent too, since
  \<open>dropna\<close> comes first). With both columns present it succeeds. Inside the
  pipeline the failure cannot occur because the Loader delivers a \<open>Resolved\<close>
  column and the Mapper's rename turns it into \<open>Closed Date\<close>; the constants the
  Mapper injects do not include \<open>Closed Date\<close>.
\<close>

theorem validate_and_clean_needs_closed_date:
  "(''Closed Date'' \<notin> set (columns_of df) \<longrightarrow>
      validate_and_clean w df = Inl (KeyError [''Closed Date'']) \<or>
      validate_and_clean w df = Inl (KeyError [''Ticket ID''])) \<and>
   (''Ticket ID'' \<in> set (columns_of df) \<and> ''Closed Date'' \<notin> set (columns_of df) \<longrightarrow>
      validate_and_clean w df = Inl (KeyError [''Closed Date''])) \<and>
   (''Ticket ID'' \<in> set (columns_of df) \<and> ''Closed Date'' \<in> set (columns_of df) \<longrightarrow>
      (\<exists>cleaned. validate_and_clean w df = Inr cleaned)) \<and>
   (\<forall>src. load_source_data w p = Inr src \<longrightarrow>
      ''Resolved'' \<in> set (columns_of src) \<and>
      ''Closed Date'' \<in> set (columns_of (rename_columns (map_of COLUMN_MAPPING) src)) \<and>
      (\<exists>cleaned. validate_and_clean w (apply_transformations src) = Inr cleaned)) \<and>
   ''Closed Date'' \<notin> set (map fst CONSTANTS)"
proof -
  have absent: "validate_and_clean w df = Inl (KeyError [''Closed Date''])"
    if tid: "''Ticket ID'' \<in> set (columns_of df)" and ncd: "''Closed Date'' \<notin> set (columns_of df)"
  proof -
    obtain ids where "column df ''Ticket ID'' = Some ids"
      using tid column_eq_None_iff [of df "''Ticket ID''"]
      by (cases "column df ''Ticket ID''") auto
    then show ?thesis
      using ncd by (rule validate_and_clean_absent_closed)
  qed
  have present: "\<exists>cleaned. validate_and_clean w df = Inr cleaned"
    if tid: "''Ticket ID'' \<in> set (columns_of df)" and cd: "''Closed Date'' \<in> set (columns_of df)"
  proof -
    obtain ids closed where "column df ''Ticket ID'' = Some ids" "column df ''Closed Date'' = Some closed"
      using tid cd column_eq_None_iff [of df] by (metis not_Some_eq)
    then show ?thesis
      using validate_and_clean_present [of df ids closed w] by blast
  qed
  have loaded: "''Resolved'' \<in> set (columns_of src) \<and>
      ''Closed Date'' \<in> set (columns_of (rename_columns (map_of COLUMN_MAPPING) src)) \<and>
      (\<exists>cleaned. validate_and_clean w (apply_transformations src) = Inr cleaned)"
    if "load_source_data w p = Inr src" for src
  proof -
    have s: "set (columns_of src) = set (map fst COLUMN_MAPPING)"
      using that by (rule load_source_data_Inr_columns)
    have "''Resolved'' \<in> set (columns_of src)"
      by (simp add: s keys_COLUMN_MAPPING)
    moreover from this
    have "''Closed Date'' \<in> set (columns_of (rename_columns (map_of COLUMN_MAPPING) src))"
      by (force simp: columns_of_rename_columns rename_target_simps)
    ultimately show ?thesis
      using clean_after_load [OF s, of w] by blast
  qed
  have "''Closed Date'' \<notin> set (map fst CONSTANTS)"
    by (simp add: CONSTANTS_def)
  then show ?thesis
    using absent present loaded validate_and_clean_absent_key [of df w]
    by blast
qed

theorem validate_and_clean_needs_closed_date_witness:
  "''Ticket ID'' \<in> set (columns_of \<lparr>nrows = 1, cols = [(''Ticket ID'', [Str ''ABC-1''])]\<rparr>) \<and>
   ''Closed Date'' \<notin> set (columns_of \<lparr>nrows = 1, cols = [(''Ticket ID'', [Str ''ABC-1''])]\<rparr>) \<and>
   validate_and_clean example_world \<lparr>nrows = 1, cols = [(''Ticket ID'', [Str ''ABC-1''])]\<rparr> =
     Inl (KeyError [''Closed Date'']) \<and>
   load_source_data example_world ''in.csv'' = Inr example_loaded \<and>
   ''Resolved'' \<in> set (columns_of example_loaded) \<and>
   (\<exists>cleaned. validate_and_clean example_world (apply_transformations example_loaded) = Inr cleaned)"
  using validate_and_clean_needs_closed_date
          [of "\<lparr>nrows = 1, cols = [(''Ticket ID'', [Str ''ABC-1''])]\<rparr>" example_world "''in.csv''"]
    load_source_data_example
  by (simp add: columns_of_def)

text \<open>
  The constants alone do not supply the column: a Dataset with a Ticket ID and the
  three injected constants still fails on \<open>Closed Date\<close>, while the renamed Dataset
  passes the Validator/Cleaner before any constant is injected.
\<close>

theorem constant_injection_counterexample:
  "validate_and_clean example_world
     (inject_constants CONSTANTS \<lparr>nrows = 1, cols = [(''Ticket ID'', [Str ''ABC-1''])]\<rparr>) =
     Inl (KeyError [''Closed Date'']) \<and>
   ''Closed Date'' \<notin> set (columns_of (inject_constants CONSTANTS example_loaded)) \<and>
   validate_and_clean example_world (rename_columns (map_of COLUMN_MAPPING) example_loaded) =
     Inr \<lparr>nrows = 1,
          cols = [(''Ticket ID'', [Str ''ABC-1'']),
                  (''Ticket Type'', [Str ''Bug'']),
                  (''Open Date'', [Timestamp 1704067200000000000]),
                  (''Status'', [Str ''Open'']),
                  (''Closed Date'', [Str []])]\<rparr>"
proof -
  have a: "validate_and_clean example_world
     (inject_constants CONSTANTS \<lparr>nrows = 1, cols = [(''Ticket ID'', [Str ''ABC-1''])]\<rparr>) =
     Inl (KeyError [''Closed Date''])"
  proof (rule validate_and_clean_absent_closed [where ids = "[Str ''ABC-1'']"])
    show "column (inject_constants CONSTANTS \<lparr>nrows = 1, cols = [(''Ticket ID'', [Str ''ABC-1''])]\<rparr>)
            ''Ticket ID'' = Some [Str ''ABC-1'']"
      unfolding column_inject_constants by (simp add: CONSTANTS_def column_def)
    show "''Closed Date'' \<notin> set (columns_of
            (inject_constants CONSTANTS \<lparr>nrows = 1, cols = [(''Ticket ID'', [Str ''ABC-1''])]\<rparr>))"
      unfolding set_columns_of_inject_constants by (simp add: CONSTANTS_def columns_of_def)
  qed
  have b: "''Closed Date'' \<notin> set (columns_of (inject_constants CONSTANTS example_loaded))"
    unfolding set_columns_of_inject_constants
    by (simp add: CONSTANTS_def example_loaded_def columns_of_def)
  have c: "validate_and_clean example_world (rename_columns (map_of COLUMN_MAPPING) example_loaded) =
     Inr \<lparr>nrows = 1,
          cols = [(''Ticket ID'', [Str ''ABC-1'']),
                  (''Ticket Type'', [Str ''Bug'']),
                  (''Open Date'', [Timestamp 1704067200000000000]),
                  (''Status'', [Str ''Open'']),
                  (''Closed Date'', [Str []])]\<rparr>"
    by (simp add: validate_and_clean_def dropna_subset_def column_def example_loaded_def keep_def
        rename_columns_def COLUMN_MAPPING_def coerce_dates_def set_series_def to_datetime_coerce_def
        getitem_def fillna_def example_world_def)
  show ?thesis
    using a b c by simp
qed

subsection \<open>The schema error\<close>

lemma py_join_contains:
  "x \<in> set xs \<Longrightarrow> \<exists>pre post. py_join sep xs = pre @ x @ post"
proof (induction sep xs rule: py_join.induct)
  case (1 sep)
  then show ?case by simp
next
  case (2 sep y)
  then have "py_join sep [y] = [] @ x @ []" by simp
  then show ?case by blast
next
  case (3 sep y z zs)
  show ?case
  proof (cases "x = y")
    case True
    then have "py_join sep (y # z # zs) = [] @ x @ (sep @ py_join sep (z # zs))" by simp
    then show ?thesis by blast
  next
    case False
    then obtain pre post where "py_join sep (z # zs) = pre @ x @ post"
      using 3 by auto
    then have "py_join sep (y # z # zs) = (y @ sep @ pre) @ x @ post" by simp
    then show ?thesis by blast
  qed
qed

lemma py_repr_list_contains:
  assumes "r \<in> set rs"
  shows "\<exists>pre post. py_repr_list rs = pre @ py_repr_str r @ post"
proof -
  obtain pre post where "py_join '', '' (map py_repr_str rs) = pre @ py_repr_str r @ post"
    using py_join_contains [of "py_repr_str r" "map py_repr_str rs" "'', ''"] assms by auto
  then have "py_repr_list rs = (''['' @ pre) @ py_repr_str r @ (post @ '']'')"
    by (simp add: py_repr_list_def)
  then show ?thesis by blast
qed

text \<open>
  C3. When the file exists and its header is read, and some required source column
  has no header label equal to it after lowercasing and stripping, the Loader
  raises the \<open>ValueError\<close> whose message is \<open>Missing required columns: \<close> followed by
  the list of all the required names that have no such label, in the order of
  \<open>COLUMN_MAPPING\<close>; each of them stands in the message between quotes. No Dataset
  is returned.
\<close>

theorem load_source_data_reports_all_missing:
  assumes "file_exists w p"
    and "read_header w p = Inr hdr"
    and "\<exists>r \<in> set (map fst COLUMN_MAPPING). lower_strip r \<notin> lower_strip ` set hdr"
  shows "load_source_data w p =
           Inl (ValueError (''Missing required columns: '' @
                  py_repr_list (filter (\<lambda>r. lower_strip r \<notin> lower_strip ` set hdr)
                                  (map fst COLUMN_MAPPING)))) \<and>
         (\<forall>r \<in> set (map fst COLUMN_MAPPING). lower_strip r \<notin> lower_strip ` set hdr \<longrightarrow>
            (\<exists>pre post.
               py_repr_list (filter (\<lambda>r. lower_strip r \<notin> lower_strip ` set hdr)
                               (map fst COLUMN_MAPPING)) = pre @ py_repr_str r @ post))"
proof -
  let ?missing = "filter (\<lambda>r. lower_strip r \<notin> lower_strip ` set hdr) (map fst COLUMN_MAPPING)"
  have eq: "filter (\<lambda>r. actual_col_map hdr (lower_strip r) = None) (map fst COLUMN_MAPPING) = ?missing"
    by (simp add: actual_col_map_None_iff)
  have "?missing \<noteq> []"
    using assms(3) by (simp only: filter_empty_conv) blast
  then have "load_source_data w p =
           Inl (ValueError (''Missing required columns: '' @ py_repr_list ?missing))"
    using load_source_data_missing [OF assms(1,2)] unfolding eq by blast
  moreover have "\<exists>pre post. py_repr_list ?missing = pre @ py_repr_str r @ post"
    if "r \<in> set (map fst COLUMN_MAPPING)" "lower_strip r \<notin> lower_strip ` set hdr" for r
    using that by (intro py_repr_list_contains) simp
  ultimately show ?thesis by blast
qed

lemma lower_strip_example_short:
  "map lower_strip [''issue KEY'', ''Status '', ''Summary''] = [''issue key'', ''status'', ''summary'']"
  by code_simp

theorem load_source_data_reports_all_missing_witness:
  "file_exists (example_world\<lparr>csv_header := \<lambda>p enc. Inr [''issue KEY'', ''Status '', ''Summary'']\<rparr>)
     ''in.csv'' \<and>
   read_header (example_world\<lparr>csv_header := \<lambda>p enc. Inr [''issue KEY'', ''Status '', ''Summary'']\<rparr>)
     ''in.csv'' = Inr [''issue KEY'', ''Status '', ''Summary''] \<and>
   load_source_data (example_world\<lparr>csv_header := \<lambda>p enc. Inr [''issue KEY'', ''Status '', ''Summary'']\<rparr>)
     ''in.csv'' =
     Inl (ValueError (''Missing required columns: ['' @ [CHR 0x27] @ ''Issue Type'' @ [CHR 0x27] @
            '', '' @ [CHR 0x27] @ ''Updated'' @ [CHR 0x27] @
            '', '' @ [CHR 0x27] @ ''Resolved'' @ [CHR 0x27] @ '']''))"
proof -
  let ?w = "example_world\<lparr>csv_header := \<lambda>p enc. Inr [''issue KEY'', ''Status '', ''Summary'']\<rparr>"
  have ex: "file_exists ?w ''in.csv''"
    by (simp add: example_world_def)
  have hdr: "read_header ?w ''in.csv'' = Inr [''issue KEY'', ''Status '', ''Summary'']"
    by (simp add: read_header_def)
  have img: "lower_strip ` set [''issue KEY'', ''Status '', ''Summary''] =
               {''issue key'', ''status'', ''summary''}"
    using lower_strip_example_short by simp
  have some: "\<exists>r \<in> set (map fst COLUMN_MAPPING).
                lower_strip r \<notin> lower_strip ` set [''issue KEY'', ''Status '', ''Summary'']"
    unfolding img by (simp add: keys_COLUMN_MAPPING lower_strip_key_simps)
  have missing: "filter (\<lambda>r. lower_strip r \<notin> lower_strip ` set [''issue KEY'', ''Status '', ''Summary''])
                   (map fst COLUMN_MAPPING) = [''Issue Type'', ''Updated'', ''Resolved'']"
    unfolding img by (simp add: keys_COLUMN_MAPPING lower_strip_key_simps)
  show ?thesis
    using load_source_data_reports_all_missing [OF ex hdr some] ex hdr
    unfolding missing
    by (simp add: py_repr_list_def py_repr_str_def)
qed

subsection \<open>A header that resolves every required column\<close>

lemma all_resolved:
  assumes "\<forall>r \<in> set (map fst COLUMN_MAPPING). lower_strip r \<in> lower_strip ` set hdr"
  obtains a1 a2 a3 a4 a5 where
    "actual_col_map hdr ''issue key'' = Some a1" "actual_col_map hdr ''issue type'' = Some a2"
    "actual_col_map hdr ''updated'' = Some a3" "actual_col_map hdr ''status'' = Some a4"
    "actual_col_map hdr ''resolved'' = Some a5"
proof (cases "actual_col_map hdr" rule: resolve_columns_cases)
  case (found a1 a2 a3 a4 a5)
  then show ?thesis by (rule that)
next
  case missing
  then obtain r where "r \<in> set (map fst COLUMN_MAPPING)" "actual_col_map hdr (lower_strip r) = None"
    by (auto simp: filter_empty_conv)
  then show ?thesis
    using assms by (auto simp: actual_col_map_None_iff)
qed

text \<open>
  C4. When the file exists, its header is read, the file parses (under UTF-8, or
  under Latin-1 after a UTF-8 decoding error) to a table with that header, and
  every required source column equals some header label after lowercasing and
  stripping, the Loader returns a Dataset with the rows of the table whose labels
  are exactly the five keys of \<open>COLUMN_MAPPING\<close>, each once, and whose column under
  a key holds the cells of the file's column that matched it.
\<close>

theorem load_source_data_canonical_columns:
  assumes "file_exists w p"
    and "read_header w p = Inr hdr"
    and "csv_table w p UTF8 = Inr tbl \<or>
         (csv_table w p UTF8 = Inl UnicodeDecodeError \<and> csv_table w p Latin1 = Inr tbl)"
    and "columns_of tbl = hdr"
    and "wf_df tbl"
    and "\<forall>r \<in> set (map fst COLUMN_MAPPING). lower_strip r \<in> lower_strip ` set hdr"
  shows "\<exists>df. load_source_data w p = Inr df \<and>
           wf_df df \<and>
           nrows df = nrows tbl \<and>
           set (columns_of df) = set (map fst COLUMN_MAPPING) \<and>
           length (columns_of df) = 5 \<and>
           (\<forall>r \<in> set (map fst COLUMN_MAPPING).
              \<exists>a. actual_col_map hdr (lower_strip r) = Some a \<and>
                  a \<in> set hdr \<and> lower_strip a = lower_strip r \<and>
                  column tbl a \<noteq> None \<and> column df r = column tbl a)"
proof -
  obtain a1 a2 a3 a4 a5 where a:
    "actual_col_map hdr ''issue key'' = Some a1" "actual_col_map hdr ''issue type'' = Some a2"
    "actual_col_map hdr ''updated'' = Some a3" "actual_col_map hdr ''status'' = Some a4"
    "actual_col_map hdr ''resolved'' = Some a5"
    using all_resolved [OF assms(6)] by blast
  let ?df = "rename_columns [a1 \<mapsto> ''Issue Key'', a2 \<mapsto> ''Issue Type'', a3 \<mapsto> ''Updated'',
                             a4 \<mapsto> ''Status'', a5 \<mapsto> ''Resolved'']
               (tbl\<lparr>cols := filter (\<lambda>c. fst c \<in> {a1, a2, a3, a4, a5}) (cols tbl)\<rparr>)"
  have load: "load_source_data w p = Inr ?df"
    by (rule load_source_data_found [OF assms(1-4) a])
  have d: "distinct [a1, a2, a3, a4, a5]"
    by (rule actuals_distinct [OF a])
  have mem: "a1 \<in> set hdr" "a2 \<in> set hdr" "a3 \<in> set hdr" "a4 \<in> set hdr" "a5 \<in> set hdr"
    and low: "lower_strip a1 = ''issue key''" "lower_strip a2 = ''issue type''"
      "lower_strip a3 = ''updated''" "lower_strip a4 = ''status''" "lower_strip a5 = ''resolved''"
    using a actual_col_map_Some [of hdr] by auto
  have sub: "{a1, a2, a3, a4, a5} \<subseteq> set (columns_of tbl)"
    using mem assms(4) by simp
  note lc = loaded_columns [OF d sub]
  have wf: "wf_df ?df"
    using assms(5) by (rule lc(8))
  have "card (set (columns_of ?df)) = 5"
    unfolding lc(2) by (simp add: keys_COLUMN_MAPPING)
  then have len: "length (columns_of ?df) = 5"
    using wf distinct_card [of "columns_of ?df"] by (simp add: wf_df_def)
  have some: "column tbl a \<noteq> None" if "a \<in> set hdr" for a
    using that assms(4) by (simp add: column_eq_None_iff)
  have each: "\<forall>r \<in> set (map fst COLUMN_MAPPING).
              \<exists>a. actual_col_map hdr (lower_strip r) = Some a \<and>
                  a \<in> set hdr \<and> lower_strip a = lower_strip r \<and>
                  column tbl a \<noteq> None \<and> column ?df r = column tbl a"
    using a mem low some lc(3-7)
    by (simp add: keys_COLUMN_MAPPING lower_strip_key_simps)
  show ?thesis
    using load wf lc(1,2) len each by blast
qed

lemma wf_df_example_table: "wf_df example_table"
  by (simp add: wf_df_def example_table_def columns_of_def)

lemma lower_strip_example_header:
  "map lower_strip (columns_of example_table) =
     [''issue key'', ''issue type'', ''summary'', ''updated'', ''status'', ''resolved'']"
  by code_simp

theorem load_source_data_canonical_columns_witness:
  "file_exists example_world ''in.csv'' \<and>
   read_header example_world ''in.csv'' = Inr (columns_of example_table) \<and>
   csv_table example_world ''in.csv'' UTF8 = Inr example_table \<and>
   wf_df example_table \<and>
   columns_of example_table =
     [''issue key'', ''ISSUE TYPE'', ''Summary'', ''updated'', '' Status '', ''RESOLVED''] \<and>
   load_source_data example_world ''in.csv'' = Inr example_loaded \<and>
   columns_of example_loaded = [''Issue Key'', ''Issue Type'', ''Updated'', ''Status'', ''Resolved''] \<and>
   column example_loaded ''Status'' = column example_table '' Status ''"
proof -
  have ex: "file_exists example_world ''in.csv''"
    by (simp add: example_world_def)
  have tbl: "csv_table example_world ''in.csv'' UTF8 = Inr example_table"
    by (simp add: example_world_def)
  have all: "\<forall>r \<in> set (map fst COLUMN_MAPPING).
               lower_strip r \<in> lower_strip ` set (columns_of example_table)"
    using lower_strip_example_header
    by (simp add: keys_COLUMN_MAPPING lower_strip_key_simps flip: set_map)
  show ?thesis
    using load_source_data_canonical_columns
            [OF ex read_header_example disjI1 [OF tbl] refl wf_df_example_table all]
      ex read_header_example tbl wf_df_example_table load_source_data_example
    by (simp add: columns_of_def column_def example_table_def example_loaded_def)
qed

subsection \<open>The whole run\<close>

lemma distinct_columns_of_apply_transformations:
  assumes "set (columns_of df) = set (map fst COLUMN_MAPPING)" and "distinct (columns_of df)"
  shows "distinct (columns_of (apply_transformations df))"
proof -
  let ?g = "\<lambda>name. case map_of COLUMN_MAPPING name of Some name' \<Rightarrow> name' | None \<Rightarrow> name"
  have inj: "inj_on ?g (set (columns_of df))"
    using inj_on_rename_keys by (simp only: assms(1))
  have "distinct (map ?g (columns_of df))"
    by (rule iffD2 [OF distinct_map]) (rule conjI [OF assms(2) inj])
  moreover have "set (columns_of df) =
                   {''Issue Key'', ''Issue Type'', ''Updated'', ''Status'', ''Resolved''}"
    using assms(1) by (simp add: keys_COLUMN_MAPPING)
  then have "set (map ?g (columns_of df)) =
                   {''Ticket ID'', ''Ticket Type'', ''Open Date'', ''Status'', ''Closed Date''}"
    by (simp add: rename_target_simps)
  ultimately show ?thesis
    by (simp add: columns_of_apply_transformations [OF assms(1)] CONSTANTS_def)
qed

text \<open>
  C1. Take a file that exists, whose header is read and which parses to a one-row
  table with that header; let \<open>a1\<close>, ..., \<open>a5\<close> be the header labels that the five
  required names resolve to (any letter case, any surrounding blanks, any column
  order, other columns allowed), with the cells \<open>ABC-1\<close>, \<open>Bug\<close>, \<open>2024-01-01\<close>,
  \<open>Open\<close> and an empty \<open>Resolved\<close>; let the date parser read \<open>2024-01-01\<close> as the
  timestamp \<open>t\<close> and the spreadsheet writer not fail. Then the run returns \<open>True\<close>
  and has written, at the output path, the sheet of one row with Ticket ID
  \<open>ABC-1\<close>, Ticket Type \<open>Bug\<close>, Open Date \<open>t\<close>, Priority \<open>NONE\<close>, Status \<open>Open\<close>,
  Application \<open>HMOF\<close>, Assignment Group \<open>HMH Support Group\<close> and the empty string
  as Closed Date, in that column order.
\<close>

theorem run_transformation_pipeline_round_trip:
  assumes "file_exists w i"
    and "read_header w i = Inr hdr"
    and "csv_table w i UTF8 = Inr tbl \<or>
         (csv_table w i UTF8 = Inl UnicodeDecodeError \<and> csv_table w i Latin1 = Inr tbl)"
    and "columns_of tbl = hdr"
    and "wf_df tbl"
    and "nrows tbl = 1"
    and "actual_col_map hdr (lower_strip ''Issue Key'') = Some a1"
    and "actual_col_map hdr (lower_strip ''Issue Type'') = Some a2"
    and "actual_col_map hdr (lower_strip ''Updated'') = Some a3"
    and "actual_col_map hdr (lower_strip ''Status'') = Some a4"
    and "actual_col_map hdr (lower_strip ''Resolved'') = Some a5"
    and "column tbl a1 = Some [Str ''ABC-1'']"
    and "column tbl a2 = Some [Str ''Bug'']"
    and "column tbl a3 = Some [Str ''2024-01-01'']"
    and "column tbl a4 = Some [Str ''Open'']"
    and "column tbl a5 = Some [NaN]"
    and "parse_date w ''2024-01-01'' = Some t"
    and "\<forall>d. excel_fault w out d = None"
  shows "run_transformation_pipeline w i out =
           (Inr True,
            w\<lparr>sheets := (sheets w)(out \<mapsto>
                 \<lparr>nrows = 1,
                  cols = [(''Ticket ID'', [Str ''ABC-1'']),
                          (''Ticket Type'', [Str ''Bug'']),
                          (''Open Date'', [Timestamp t]),
                          (''Priority'', [Str ''NONE'']),
                          (''Status'', [Str ''Open'']),
                          (''Application'', [Str ''HMOF'']),
                          (''Assignment Group'', [Str ''HMH Support Group'']),
                          (''Closed Date'', [Str []])]\<rparr>)\<rparr>)"
proof -
  have a: "actual_col_map hdr ''issue key'' = Some a1" "actual_col_map hdr ''issue type'' = Some a2"
    "actual_col_map hdr ''updated'' = Some a3" "actual_col_map hdr ''status'' = Some a4"
    "actual_col_map hdr ''resolved'' = Some a5"
    using assms(7-11) by (simp_all add: lower_strip_key_simps)
  define src where "src = rename_columns [a1 \<mapsto> ''Issue Key'', a2 \<mapsto> ''Issue Type'',
                             a3 \<mapsto> ''Updated'', a4 \<mapsto> ''Status'', a5 \<mapsto> ''Resolved'']
               (tbl\<lparr>cols := filter (\<lambda>c. fst c \<in> {a1, a2, a3, a4, a5}) (cols tbl)\<rparr>)"
  have load: "load_source_data w i = Inr src"
    unfolding src_def by (rule load_source_data_found [OF assms(1-4) a])
  have sub: "{a1, a2, a3, a4, a5} \<subseteq> set (columns_of tbl)"
    using a actual_col_map_Some [of hdr] assms(4) by auto
  note lc = loaded_columns [OF actuals_distinct [OF a] sub, folded src_def]
  have canon: "set (columns_of src) = set (map fst COLUMN_MAPPING)"
    by (rule lc(2))
  have wf: "wf_df src"
    using assms(5) by (rule lc(8))
  define mapped where "mapped = apply_transformations src"
  have n: "nrows mapped = 1"
    by (simp add: mapped_def apply_transformations_def nrows_inject_constants
        nrows_rename_columns lc(1) assms(6))
  have m: "column mapped ''Ticket ID'' = Some [Str ''ABC-1'']"
    "column mapped ''Ticket Type'' = Some [Str ''Bug'']"
    "column mapped ''Open Date'' = Some [Str ''2024-01-01'']"
    "column mapped ''Status'' = Some [Str ''Open'']"
    "column mapped ''Closed Date'' = Some [NaN]"
    unfolding mapped_def
    using column_apply_transformations_mapped [OF canon] lc(3-7) assms(12-16)
    by (simp_all add: COLUMN_MAPPING_def)
  have k: "column mapped ''Priority'' = Some [Str ''NONE'']"
    "column mapped ''Application'' = Some [Str ''HMOF'']"
    "column mapped ''Assignment Group'' = Some [Str ''HMH Support Group'']"
    unfolding mapped_def
    using column_apply_transformations_constant [of _ _ src]
    by (simp_all add: CONSTANTS_def lc(1) assms(6))
  have dist: "distinct (columns_of mapped)"
    unfolding mapped_def using wf
    by (intro distinct_columns_of_apply_transformations [OF canon]) (simp add: wf_df_def)
  have labels: "set (columns_of mapped) = set FINAL_COLUMN_ORDER"
    unfolding mapped_def by (rule set_columns_of_apply_transformations [OF canon])
  obtain cleaned where c: "validate_and_clean w mapped = Inr cleaned"
    and cn: "nrows cleaned = length (filter (\<lambda>c. \<not> isna c) [Str ''ABC-1''])"
    and cl: "columns_of cleaned = columns_of mapped"
    and cc: "\<And>name. column cleaned name =
              (if name = ''Closed Date''
               then Some (fillna (Str []) (to_datetime_coerce (parse_date w)
                            (keep (map (\<lambda>c. \<not> isna c) [Str ''ABC-1'']) [NaN])))
               else if name = ''Open Date''
               then map_option (\<lambda>vs. to_datetime_coerce (parse_date w)
                            (keep (map (\<lambda>c. \<not> isna c) [Str ''ABC-1'']) vs)) (column mapped name)
               else map_option (keep (map (\<lambda>c. \<not> isna c) [Str ''ABC-1''])) (column mapped name))"
    using validate_and_clean_present [OF m(1) m(5), of w] by blast
  have v: "column cleaned ''Ticket ID'' = Some [Str ''ABC-1'']"
    "column cleaned ''Ticket Type'' = Some [Str ''Bug'']"
    "column cleaned ''Open Date'' = Some [Timestamp t]"
    "column cleaned ''Priority'' = Some [Str ''NONE'']"
    "column cleaned ''Status'' = Some [Str ''Open'']"
    "column cleaned ''Application'' = Some [Str ''HMOF'']"
    "column cleaned ''Assignment Group'' = Some [Str ''HMH Support Group'']"
    "column cleaned ''Closed Date'' = Some [Str []]"
    by (simp_all add: cc m k keep_def to_datetime_coerce_def fillna_def assms(17))
  have "getitem_list cleaned FINAL_COLUMN_ORDER =
          Inr (cleaned\<lparr>cols := map (\<lambda>n. (n, the (column cleaned n))) FINAL_COLUMN_ORDER\<rparr>)"
    by (rule getitem_list_present) (simp_all add: cl labels dist)
  moreover have "cleaned\<lparr>cols := map (\<lambda>n. (n, the (column cleaned n))) FINAL_COLUMN_ORDER\<rparr> =
                 \<lparr>nrows = 1,
                  cols = [(''Ticket ID'', [Str ''ABC-1'']),
                          (''Ticket Type'', [Str ''Bug'']),
                          (''Open Date'', [Timestamp t]),
                          (''Priority'', [Str ''NONE'']),
                          (''Status'', [Str ''Open'']),
                          (''Application'', [Str ''HMOF'']),
                          (''Assignment Group'', [Str ''HMH Support Group'']),
                          (''Closed Date'', [Str []])]\<rparr>"
    using cn v by (cases cleaned) (simp add: FINAL_COLUMN_ORDER_def)
  ultimately have "save_target_file w cleaned out =
           (Inr True,
            w\<lparr>sheets := (sheets w)(out \<mapsto>
                 \<lparr>nrows = 1,
                  cols = [(''Ticket ID'', [Str ''ABC-1'']),
                          (''Ticket Type'', [Str ''Bug'']),
                          (''Open Date'', [Timestamp t]),
                          (''Priority'', [Str ''NONE'']),
                          (''Status'', [Str ''Open'']),
                          (''Application'', [Str ''HMOF'']),
                          (''Assignment Group'', [Str ''HMH Support Group'']),
                          (''Closed Date'', [Str []])]\<rparr>)\<rparr>)"
    using assms(18) by (simp add: save_target_file_writes)
  then show ?thesis
    using run_saves [OF load c [unfolded mapped_def]] by simp
qed

theorem run_transformation_pipeline_round_trip_witness:
  "columns_of example_table =
     [''issue key'', ''ISSUE TYPE'', ''Summary'', ''updated'', '' Status '', ''RESOLVED''] \<and>
   rows_of example_table =
     [[(''issue key'', Str ''ABC-1''), (''ISSUE TYPE'', Str ''Bug''),
       (''Summary'', Str ''Crash on start''), (''updated'', Str ''2024-01-01''),
       ('' Status '', Str ''Open''), (''RESOLVED'', NaN)]] \<and>
   csv_table example_world ''in.csv'' UTF8 = Inr example_table \<and>
   run_transformation_pipeline example_world ''in.csv'' ''out.xlsx'' =
     (Inr True,
      example_world\<lparr>sheets := [''out.xlsx'' \<mapsto>
         \<lparr>nrows = 1,
          cols = [(''Ticket ID'', [Str ''ABC-1'']),
                  (''Ticket Type'', [Str ''Bug'']),
                  (''Open Date'', [Timestamp 1704067200000000000]),
                  (''Priority'', [Str ''NONE'']),
                  (''Status'', [Str ''Open'']),
                  (''Application'', [Str ''HMOF'']),
                  (''Assignment Group'', [Str ''HMH Support Group'']),
                  (''Closed Date'', [Str []])]\<rparr>]\<rparr>)"
proof -
  have ex: "file_exists example_world ''in.csv''"
    by (simp add: example_world_def)
  have tbl: "csv_table example_world ''in.csv'' UTF8 = Inr example_table"
    by (simp add: example_world_def)
  have one: "nrows example_table = 1"
    by (simp add: example_table_def)
  have a: "actual_col_map (columns_of example_table) (lower_strip ''Issue Key'') = Some ''issue key''"
    "actual_col_map (columns_of example_table) (lower_strip ''Issue Type'') = Some ''ISSUE TYPE''"
    "actual_col_map (columns_of example_table) (lower_strip ''Updated'') = Some ''updated''"
    "actual_col_map (columns_of example_table) (lower_strip ''Status'') = Some '' Status ''"
    "actual_col_map (columns_of example_table) (lower_strip ''Resolved'') = Some ''RESOLVED''"
    by (simp_all add: lower_strip_key_simps actual_col_map_example)
  have v: "column example_table ''issue key'' = Some [Str ''ABC-1'']"
    "column example_table ''ISSUE TYPE'' = Some [Str ''Bug'']"
    "column example_table ''updated'' = Some [Str ''2024-01-01'']"
    "column example_table '' Status '' = Some [Str ''Open'']"
    "column example_table ''RESOLVED'' = Some [NaN]"
    by (simp_all add: column_def example_table_def)
  have p: "parse_date example_world ''2024-01-01'' = Some 1704067200000000000"
    by (simp add: example_world_def)
  have nofault: "\<forall>d. excel_fault example_world ''out.xlsx'' d = None"
    by (simp add: example_world_def)
  have s: "sheets example_world = Map.empty"
    by (simp add: example_world_def)
  show ?thesis
    using run_transformation_pipeline_round_trip
            [OF ex read_header_example disjI1 [OF tbl] refl wf_df_example_table one a v p nofault]
      tbl
    by (simp add: s columns_of_def rows_of_def row_at_def example_table_def)
qed

subsection \<open>The functions with their logger calls\<close>

lemma log_then_None [simp]: "lg line = None \<Longrightarrow> log_then lg line rest = rest"
  by (simp add: log_then_def)

lemma log_then_Some [simp]: "lg line = Some e \<Longrightarrow> log_then lg line rest = Inl e"
  by (simp add: log_then_def)














end
